theory Spec2Isabelle
  imports Complex_Main "HOL-Library.Word"
begin

unbundle bit_operations_syntax

section \<open>Strings, JSON values and HTTP responses\<close>

text \<open>Go strings are byte sequences; they are modelled as \<^typ>\<open>string\<close>.\<close>

definition HasPrefix :: "string \<Rightarrow> string \<Rightarrow> bool" where
  "HasPrefix s p = (take (length p) s = p)"

definition TrimPrefix :: "string \<Rightarrow> string \<Rightarrow> string" where
  "TrimPrefix s p = (if HasPrefix s p then drop (length p) s else s)"

fun Contains :: "string \<Rightarrow> string \<Rightarrow> bool" where
  "Contains [] sub = (sub = [])"
| "Contains (c # cs) sub = (HasPrefix (c # cs) sub \<or> Contains cs sub)"

definition dquote :: string where
  "dquote = [CHR 0x22]"

text \<open>Byte-wise comparison of strings, Go's \<open><\<close> on \<open>string\<close>.\<close>

fun str_less :: "string \<Rightarrow> string \<Rightarrow> bool" where
  "str_less [] [] = False"
| "str_less [] (d # ds) = True"
| "str_less (c # cs) [] = False"
| "str_less (c # cs) (d # ds) =
     ((of_char c :: nat) < of_char d \<or> (c = d \<and> str_less cs ds))"

text \<open>A decoded JSON document. A number carries the \<open>float64\<close> value it decodes to.\<close>

datatype json =
    JNull
  | JBool bool
  | JNumber rat
  | JString string
  | JArray "json list"
  | JObject "(string \<times> json) list"

datatype body = Text string | Json json | SuccessPage string

record http_response =
  status :: nat
  headers :: "(string \<times> string) list"
  body :: body

definition header_set :: "string \<Rightarrow> string \<Rightarrow> (string \<times> string) list \<Rightarrow> (string \<times> string) list" where
  "header_set k v hs = (k, v) # filter (\<lambda>kv. fst kv \<noteq> k) hs"

definition header_get :: "(string \<times> string) list \<Rightarrow> string \<Rightarrow> string" where
  "header_get hs k = (case map_of hs k of None \<Rightarrow> [] | Some v \<Rightarrow> v)"

text \<open>\<open>http.Error(w, msg, code)\<close>: a plain-text body and the given status; the headers
  set on \<open>w\<close> before the call are kept.\<close>

definition http_Error :: "(string \<times> string) list \<Rightarrow> string \<Rightarrow> nat \<Rightarrow> http_response" where
  "http_Error hs msg code =
     \<lparr>status = code,
      headers = header_set ''X-Content-Type-Options'' ''nosniff''
                 (header_set ''Content-Type'' ''text/plain; charset=utf-8''
                   (filter (\<lambda>kv. fst kv \<noteq> ''Content-Length'') hs)),
      body = Text (msg @ [CHR 0x0A])\<rparr>"

text \<open>\<open>http.Redirect(w, r, url, code)\<close>; the short HTML body it adds is left out.\<close>

definition http_Redirect :: "string \<Rightarrow> nat \<Rightarrow> http_response" where
  "http_Redirect url code = \<lparr>status = code, headers = [(''Location'', url)], body = Text []\<rparr>"

text \<open>\<open>writeOAuthError\<close> (\<open>internal/mcp/oauth2.go\<close>).\<close>

definition writeOAuthError :: "nat \<Rightarrow> string \<Rightarrow> string \<Rightarrow> http_response" where
  "writeOAuthError code errCode description =
     \<lparr>status = code,
      headers = [(''Content-Type'', ''application/json'')],
      body = Json (JObject [(''error'', JString errCode), (''error_description'', JString description)])\<rparr>"

section \<open>SHA-256, unpadded base64url and the PKCE check\<close>

text \<open>
  \<open>validatePKCE\<close> calls \<open>sha256.Sum256\<close> and \<open>base64.RawURLEncoding.EncodeToString\<close> of the
  Go standard library. Both are written out here (FIPS 180-4 and RFC 4648, section 5,
  without padding; the round constants are written in decimal) so that the check can be evaluated on concrete verifiers.
\<close>

type_synonym u32 = "32 word"
type_synonym byte = "8 word"
type_synonym sha_state = "u32 \<times> u32 \<times> u32 \<times> u32 \<times> u32 \<times> u32 \<times> u32 \<times> u32"

definition rotr :: "nat \<Rightarrow> u32 \<Rightarrow> u32" where
  "rotr n x = drop_bit n x OR push_bit (32 - n) x"

definition K256 :: "u32 list" where
  "K256 =
    [
     1116352408, 1899447441, 3049323471, 3921009573, 961987163, 1508970993, 2453635748, 2870763221,
     3624381080, 310598401, 607225278, 1426881987, 1925078388, 2162078206, 2614888103, 3248222580,
     3835390401, 4022224774, 264347078, 604807628, 770255983, 1249150122, 1555081692, 1996064986,
     2554220882, 2821834349, 2952996808, 3210313671, 3336571891, 3584528711, 113926993, 338241895,
     666307205, 773529912, 1294757372, 1396182291, 1695183700, 1986661051, 2177026350, 2456956037,
     2730485921, 2820302411, 3259730800, 3345764771, 3516065817, 3600352804, 4094571909, 275423344,
     430227734, 506948616, 659060556, 883997877, 958139571, 1322822218, 1537002063, 1747873779,
     1955562222, 2024104815, 2227730452, 2361852424, 2428436474, 2756734187, 3204031479, 3329325298]"

definition init256 :: sha_state where
  "init256 = (1779033703, 3144134277, 1013904242, 2773480762,
              1359893119, 2600822924, 528734635, 1541459225)"

definition ssig0 :: "u32 \<Rightarrow> u32" where
  "ssig0 x = rotr 7 x XOR rotr 18 x XOR drop_bit 3 x"

definition ssig1 :: "u32 \<Rightarrow> u32" where
  "ssig1 x = rotr 17 x XOR rotr 19 x XOR drop_bit 10 x"

definition bsig0 :: "u32 \<Rightarrow> u32" where
  "bsig0 x = rotr 2 x XOR rotr 13 x XOR rotr 22 x"

definition bsig1 :: "u32 \<Rightarrow> u32" where
  "bsig1 x = rotr 6 x XOR rotr 11 x XOR rotr 25 x"

definition ch :: "u32 \<Rightarrow> u32 \<Rightarrow> u32 \<Rightarrow> u32" where
  "ch x y z = (x AND y) XOR (NOT x AND z)"

definition maj :: "u32 \<Rightarrow> u32 \<Rightarrow> u32 \<Rightarrow> u32" where
  "maj x y z = (x AND y) XOR (x AND z) XOR (y AND z)"

text \<open>The message schedule is kept newest word first: \<open>ws ! 1\<close> is \<open>W(t-2)\<close>,
  \<open>ws ! 6\<close> is \<open>W(t-7)\<close>, \<open>ws ! 14\<close> is \<open>W(t-15)\<close> and \<open>ws ! 15\<close> is \<open>W(t-16)\<close>.\<close>

definition next_w :: "u32 list \<Rightarrow> u32" where
  "next_w ws = ssig1 (ws ! 1) + ws ! 6 + ssig0 (ws ! 14) + ws ! 15"

fun schedule :: "nat \<Rightarrow> u32 list \<Rightarrow> u32 list" where
  "schedule 0 ws = ws"
| "schedule (Suc n) ws = schedule n (next_w ws # ws)"

definition be32 :: "byte \<Rightarrow> byte \<Rightarrow> byte \<Rightarrow> byte \<Rightarrow> u32" where
  "be32 a b c d = push_bit 24 (ucast a) OR push_bit 16 (ucast b) OR push_bit 8 (ucast c) OR ucast d"

fun words_of :: "byte list \<Rightarrow> u32 list" where
  "words_of (a # b # c # d # rest) = be32 a b c d # words_of rest"
| "words_of _ = []"

definition round256 :: "sha_state \<Rightarrow> u32 \<times> u32 \<Rightarrow> sha_state" where
  "round256 st kw = (case st of (a, b, c, d, e, f, g, h) \<Rightarrow> case kw of (k, w) \<Rightarrow>
     (let t1 = h + bsig1 e + ch e f g + k + w;
          t2 = bsig0 a + maj a b c
      in (t1 + t2, a, b, c, d + t1, e, f, g)))"

definition add_state :: "sha_state \<Rightarrow> sha_state \<Rightarrow> sha_state" where
  "add_state s t = (case s of (a, b, c, d, e, f, g, h) \<Rightarrow>
     case t of (a', b', c', d', e', f', g', h') \<Rightarrow>
       (a + a', b + b', c + c', d + d', e + e', f + f', g + g', h + h'))"

definition compress :: "sha_state \<Rightarrow> byte list \<Rightarrow> sha_state" where
  "compress hs block =
     add_state hs (foldl round256 hs (zip K256 (rev (schedule 48 (rev (words_of block))))))"

fun blocks :: "nat \<Rightarrow> sha_state \<Rightarrow> byte list \<Rightarrow> sha_state" where
  "blocks 0 hs bs = hs"
| "blocks (Suc n) hs bs = blocks n (compress hs (take 64 bs)) (drop 64 bs)"

definition be_bytes8 :: "nat \<Rightarrow> byte list" where
  "be_bytes8 x = map (\<lambda>i. of_nat (x div 256 ^ i mod 256)) [7, 6, 5, 4, 3, 2, 1, 0]"

definition pad :: "byte list \<Rightarrow> byte list" where
  "pad m = m @ [0x80] @ replicate ((119 - length m mod 64) mod 64) 0 @ be_bytes8 (8 * length m)"

definition word_bytes :: "u32 \<Rightarrow> byte list" where
  "word_bytes w = map (\<lambda>i. of_nat (unat w div 256 ^ i mod 256)) [3, 2, 1, 0]"

definition state_bytes :: "sha_state \<Rightarrow> byte list" where
  "state_bytes s = (case s of (a, b, c, d, e, f, g, h) \<Rightarrow>
     concat (map word_bytes [a, b, c, d, e, f, g, h]))"

definition Sum256 :: "byte list \<Rightarrow> byte list" where
  "Sum256 m = (let p = pad m in state_bytes (blocks (length p div 64) init256 p))"

definition bytes_of :: "string \<Rightarrow> byte list" where
  "bytes_of s = map (\<lambda>c. of_nat (of_char c)) s"

definition encodeURL :: string where
  "encodeURL = ''ABCDEFGHIJKLMNOPQRSTUVWXYZabcdefghijklmnopqrstuvwxyz0123456789-_''"

text \<open>\<open>base64.RawURLEncoding.EncodeToString\<close>: three bytes give four characters; a
  remainder of two bytes gives three characters and of one byte two, with no padding.\<close>

fun EncodeToString :: "byte list \<Rightarrow> string" where
  "EncodeToString (a # b # c # rest) =
     (let v = unat a * 65536 + unat b * 256 + unat c
      in [encodeURL ! (v div 262144 mod 64), encodeURL ! (v div 4096 mod 64),
          encodeURL ! (v div 64 mod 64), encodeURL ! (v mod 64)]) @ EncodeToString rest"
| "EncodeToString [a, b] =
     (let v = unat a * 65536 + unat b * 256
      in [encodeURL ! (v div 262144 mod 64), encodeURL ! (v div 4096 mod 64),
          encodeURL ! (v div 64 mod 64)])"
| "EncodeToString [a] =
     (let v = unat a * 65536
      in [encodeURL ! (v div 262144 mod 64), encodeURL ! (v div 4096 mod 64)])"
| "EncodeToString [] = []"

text \<open>\<open>validatePKCE\<close> (\<open>internal/mcp/oauth2.go\<close>).\<close>

definition validatePKCE :: "string \<Rightarrow> string \<Rightarrow> string \<Rightarrow> bool" where
  "validatePKCE verifier challenge method =
     (if method \<noteq> ''S256'' then False
      else (let hash = Sum256 (bytes_of verifier);
                computed = EncodeToString hash
            in computed = challenge))"

section \<open>The authorization server (\<open>internal/mcp/oauth2.go\<close>)\<close>

text \<open>Times are nanoseconds since an arbitrary origin; \<open>time.Now()\<close> is an input \<open>now\<close>
  of each handler.\<close>

definition stateTTL :: int where
  "stateTTL = 10 * 60 * 1000000000"

definition codeTTL :: int where
  "codeTTL = 10 * 60 * 1000000000"

record oauth_config =
  cfg_ClientID :: string
  cfg_ClientSecret :: string
  cfg_RedirectURL :: string

record token =
  AccessToken :: string
  RefreshToken :: string
  Expiry :: "int option"

record registeredClient =
  rc_ClientID :: string
  rc_ClientSecret :: string
  rc_RedirectURIs :: "string list"
  rc_CreatedAt :: int

record authState =
  as_ClientID :: string
  as_RedirectURI :: string
  as_CodeChallenge :: string
  as_CodeMethod :: string
  as_ClientState :: string
  as_CreatedAt :: int

record authCode =
  ac_Code :: string
  ac_ClientID :: string
  ac_RedirectURI :: string
  ac_CodeChallenge :: string
  ac_CodeMethod :: string
  ac_GoogleToken :: token
  ac_CreatedAt :: int

record OAuth2Server =
  baseURL :: string
  oauthConfig :: oauth_config
  clients :: "string \<rightharpoonup> registeredClient"
  states :: "string \<rightharpoonup> authState"
  codes :: "string \<rightharpoonup> authCode"

subsection \<open>The critical sections under \<open>s.mu\<close>\<close>

text \<open>Every access of a handler to the three maps happens between \<open>s.mu.Lock()\<close> and
  \<open>s.mu.Unlock()\<close> (or their read variants). Each such section is one function on the
  server value; the first component of the result is what the section read.\<close>

text \<open>\<open>HandleCallback\<close>: look the state up and delete it when present.\<close>

definition lookup_delete_state :: "string \<Rightarrow> OAuth2Server \<Rightarrow> authState option \<times> OAuth2Server" where
  "lookup_delete_state internalState s =
     (case states s internalState of
        Some storedState \<Rightarrow> (Some storedState, s\<lparr>states := (states s)(internalState := None)\<rparr>)
      | None \<Rightarrow> (None, s))"

text \<open>\<open>handleAuthorizationCodeGrant\<close>: look the code up and delete it when present.\<close>

definition lookup_delete_code :: "string \<Rightarrow> OAuth2Server \<Rightarrow> authCode option \<times> OAuth2Server" where
  "lookup_delete_code code s =
     (case codes s code of
        Some storedCode \<Rightarrow> (Some storedCode, s\<lparr>codes := (codes s)(code := None)\<rparr>)
      | None \<Rightarrow> (None, s))"

text \<open>\<open>HandleAuthorize\<close>: store the state under the fresh internal token.\<close>

definition store_state :: "string \<Rightarrow> authState \<Rightarrow> OAuth2Server \<Rightarrow> OAuth2Server" where
  "store_state internalState st s = s\<lparr>states := (states s)(internalState \<mapsto> st)\<rparr>"

text \<open>\<open>HandleCallback\<close>: store the code minted after the upstream exchange.\<close>

definition store_code :: "string \<Rightarrow> authCode \<Rightarrow> OAuth2Server \<Rightarrow> OAuth2Server" where
  "store_code ourCode c s = s\<lparr>codes := (codes s)(ourCode \<mapsto> c)\<rparr>"

text \<open>\<open>registerClientWithID\<close>; \<open>secret\<close> is the token \<open>generateToken()\<close> returns.\<close>

definition registerClientWithID ::
    "int \<Rightarrow> string \<Rightarrow> string \<Rightarrow> string list \<Rightarrow> OAuth2Server \<Rightarrow> registeredClient \<times> OAuth2Server" where
  "registerClientWithID now secret clientID redirectURIs s =
     (let client = \<lparr>rc_ClientID = clientID, rc_ClientSecret = secret,
                     rc_RedirectURIs = redirectURIs, rc_CreatedAt = now\<rparr>
      in (client, s\<lparr>clients := (clients s)(clientID \<mapsto> client)\<rparr>))"

text \<open>One pass of \<open>cleanupLoop\<close>.\<close>

definition cleanup :: "int \<Rightarrow> OAuth2Server \<Rightarrow> OAuth2Server" where
  "cleanup now s =
     s\<lparr>states := (\<lambda>k. case states s k of
                       Some v \<Rightarrow> if now - as_CreatedAt v > stateTTL then None else Some v
                     | None \<Rightarrow> None),
       codes := (\<lambda>k. case codes s k of
                       Some v \<Rightarrow> if now - ac_CreatedAt v > codeTTL then None else Some v
                     | None \<Rightarrow> None)\<rparr>"

subsection \<open>Executions of critical sections\<close>

text \<open>Since the sections exclude one another, an execution of any number of concurrent
  handler invocations and of the sweeper is a sequence of sections. \<open>run\<close> records for
  each section whether it found the entry it looked for.\<close>

datatype section_op =
    AuthorizeStore string authState
  | CallbackLookup string
  | CallbackStore string authCode
  | TokenLookup string
  | Register int string string "string list"
  | Sweep int

fun exec :: "section_op \<Rightarrow> OAuth2Server \<Rightarrow> bool \<times> OAuth2Server" where
  "exec (AuthorizeStore k st) s = (False, store_state k st s)"
| "exec (CallbackLookup k) s = (case lookup_delete_state k s of (r, s') \<Rightarrow> (r \<noteq> None, s'))"
| "exec (CallbackStore k c) s = (False, store_code k c s)"
| "exec (TokenLookup k) s = (case lookup_delete_code k s of (r, s') \<Rightarrow> (r \<noteq> None, s'))"
| "exec (Register now secret clientID uris) s = (False, snd (registerClientWithID now secret clientID uris s))"
| "exec (Sweep now) s = (False, cleanup now s)"

fun run :: "section_op list \<Rightarrow> OAuth2Server \<Rightarrow> (section_op \<times> bool) list" where
  "run [] s = []"
| "run (x # xs) s = (case exec x s of (found, s') \<Rightarrow> (x, found) # run xs s')"

text \<open>How often an execution stores a state, or a code, under the key \<open>k\<close>.\<close>

fun stores_state :: "string \<Rightarrow> section_op \<Rightarrow> bool" where
  "stores_state k (AuthorizeStore k' st) = (k' = k)"
| "stores_state k _ = False"

fun stores_code :: "string \<Rightarrow> section_op \<Rightarrow> bool" where
  "stores_code k (CallbackStore k' c) = (k' = k)"
| "stores_code k _ = False"

definition state_mints :: "string \<Rightarrow> section_op list \<Rightarrow> nat" where
  "state_mints k ops = length (filter (stores_state k) ops)"

definition code_mints :: "string \<Rightarrow> section_op list \<Rightarrow> nat" where
  "code_mints k ops = length (filter (stores_code k) ops)"

text \<open>How many sections of an execution are the lookup \<open>x\<close> and found their entry.\<close>

definition successes :: "section_op \<Rightarrow> (section_op \<times> bool) list \<Rightarrow> nat" where
  "successes x tr = length (filter (\<lambda>e. fst e = x \<and> snd e) tr)"

subsection \<open>Handlers\<close>

text \<open>\<open>HandleAuthorize\<close>. The arguments after \<open>now\<close> are the tokens the two calls of
  \<open>generateToken()\<close> return (the second is used only for auto-registration), the upstream
  \<open>AuthCodeURL\<close> and the query parameters (empty when missing).\<close>

definition HandleAuthorize ::
    "int \<Rightarrow> string \<Rightarrow> string \<Rightarrow> (oauth_config \<Rightarrow> string \<Rightarrow> string) \<Rightarrow>
     string \<Rightarrow> string \<Rightarrow> string \<Rightarrow> string \<Rightarrow> string \<Rightarrow> OAuth2Server \<Rightarrow> http_response \<times> OAuth2Server" where
  "HandleAuthorize now internalState secret AuthCodeURL clientID redirectURI codeChallenge codeMethod state s =
     (if clientID = [] \<or> redirectURI = [] then
        (writeOAuthError 400 ''invalid_request'' ''client_id and redirect_uri are required'', s)
      else
        (let s1 = (if clients s clientID = None
                   then snd (registerClientWithID now secret clientID [redirectURI] s) else s);
             s2 = store_state internalState
                    \<lparr>as_ClientID = clientID, as_RedirectURI = redirectURI,
                     as_CodeChallenge = codeChallenge, as_CodeMethod = codeMethod,
                     as_ClientState = state, as_CreatedAt = now\<rparr> s1;
             s3 = s2\<lparr>oauthConfig := (oauthConfig s2)\<lparr>cfg_RedirectURL := baseURL s2 @ ''/oauth/callback''\<rparr>\<rparr>
         in (http_Redirect (AuthCodeURL (oauthConfig s3) internalState) 302, s3)))"

text \<open>\<open>HandleCallback\<close>. \<open>q_error\<close>, \<open>q_code\<close> and \<open>q_state\<close> are the query parameters
  (empty when missing), \<open>accept\<close> the \<open>Accept\<close> header, \<open>exchange\<close> the upstream
  code exchange and \<open>ourCode\<close> the token \<open>generateToken()\<close> returns.\<close>

definition HandleCallback ::
    "int \<Rightarrow> (oauth_config \<Rightarrow> string \<Rightarrow> string + token) \<Rightarrow> string \<Rightarrow>
     string \<Rightarrow> string \<Rightarrow> string \<Rightarrow> string \<Rightarrow> OAuth2Server \<Rightarrow> http_response \<times> OAuth2Server" where
  "HandleCallback now exchange ourCode q_error q_code q_state accept s =
     (if q_error \<noteq> [] then
        (writeOAuthError 400 q_error ''Authorization denied by user'', s)
      else if q_code = [] \<or> q_state = [] then
        (writeOAuthError 400 ''invalid_request'' ''Missing code or state'', s)
      else
        (case lookup_delete_state q_state s of
           (None, s1) \<Rightarrow> (writeOAuthError 400 ''invalid_request'' ''Invalid or expired state'', s1)
         | (Some storedState, s1) \<Rightarrow>
             if now - as_CreatedAt storedState > stateTTL then
               (writeOAuthError 400 ''invalid_request'' ''Invalid or expired state'', s1)
             else
               (let s2 = s1\<lparr>oauthConfig := (oauthConfig s1)\<lparr>cfg_RedirectURL := baseURL s1 @ ''/oauth/callback''\<rparr>\<rparr>
                in case exchange (oauthConfig s2) q_code of
                     Inl err \<Rightarrow>
                       (writeOAuthError 500 ''server_error'' ''Failed to exchange authorization code'', s2)
                   | Inr googleToken \<Rightarrow>
                       (let s3 = store_code ourCode
                                   \<lparr>ac_Code = ourCode,
                                    ac_ClientID = as_ClientID storedState,
                                    ac_RedirectURI = as_RedirectURI storedState,
                                    ac_CodeChallenge = as_CodeChallenge storedState,
                                    ac_CodeMethod = as_CodeMethod storedState,
                                    ac_GoogleToken = googleToken,
                                    ac_CreatedAt = now\<rparr> s2;
                            sep = (if Contains (as_RedirectURI storedState) ''?'' then ''&'' else ''?'');
                            redirectURL = as_RedirectURI storedState @ sep @ ''code='' @ ourCode @
                              (if as_ClientState storedState \<noteq> []
                               then ''&state='' @ as_ClientState storedState else [])
                        in if Contains accept ''text/html'' then
                             (\<lparr>status = 200, headers = [(''Content-Type'', ''text/html'')],
                               body = SuccessPage redirectURL\<rparr>, s3)
                           else (http_Redirect redirectURL 302, s3)))))"

text \<open>\<open>time.Until(expiry).Seconds()\<close> converted with \<open>int(...)\<close>: whole seconds,
  truncated towards zero.\<close>

definition seconds_until :: "int \<Rightarrow> int \<Rightarrow> int" where
  "seconds_until now expiry =
     (if expiry - now \<ge> 0 then (expiry - now) div 1000000000
      else - ((now - expiry) div 1000000000))"

text \<open>The token response; \<open>json.Encoder\<close> writes the keys of a map in sorted order.\<close>

definition token_response :: "int \<Rightarrow> token \<Rightarrow> http_response" where
  "token_response now t =
     \<lparr>status = 200,
      headers = [(''Content-Type'', ''application/json'')],
      body = Json (JObject
        ([(''access_token'', JString (AccessToken t))] @
         (case Expiry t of
            None \<Rightarrow> []
          | Some e \<Rightarrow> if seconds_until now e > 0
                       then [(''expires_in'', JNumber (of_int (seconds_until now e)))] else []) @
         (if RefreshToken t \<noteq> [] then [(''refresh_token'', JString (RefreshToken t))] else []) @
         [(''token_type'', JString ''Bearer'')]))\<rparr>"

text \<open>\<open>handleAuthorizationCodeGrant\<close>. \<open>code\<close> and \<open>codeVerifier\<close> are the form values
  (empty when missing).\<close>

definition handleAuthorizationCodeGrant ::
    "int \<Rightarrow> string \<Rightarrow> string \<Rightarrow> OAuth2Server \<Rightarrow> http_response \<times> OAuth2Server" where
  "handleAuthorizationCodeGrant now code codeVerifier s =
     (if code = [] then
        (writeOAuthError 400 ''invalid_request'' ''Missing code'', s)
      else
        (case lookup_delete_code code s of
           (None, s1) \<Rightarrow>
             (writeOAuthError 400 ''invalid_grant'' ''Invalid or expired authorization code'', s1)
         | (Some storedCode, s1) \<Rightarrow>
             if now - ac_CreatedAt storedCode > codeTTL then
               (writeOAuthError 400 ''invalid_grant'' ''Invalid or expired authorization code'', s1)
             else if ac_CodeChallenge storedCode \<noteq> [] then
               (if codeVerifier = [] then
                  (writeOAuthError 400 ''invalid_grant'' ''Missing code_verifier'', s1)
                else if \<not> validatePKCE codeVerifier (ac_CodeChallenge storedCode)
                            (ac_CodeMethod storedCode) then
                  (writeOAuthError 400 ''invalid_grant'' ''Invalid code_verifier'', s1)
                else (token_response now (ac_GoogleToken storedCode), s1))
             else (token_response now (ac_GoogleToken storedCode), s1)))"

text \<open>\<open>handleRefreshTokenGrant\<close>; \<open>refresh\<close> is the upstream refresh-token call.\<close>

definition handleRefreshTokenGrant ::
    "int \<Rightarrow> (oauth_config \<Rightarrow> string \<Rightarrow> string + token) \<Rightarrow> string \<Rightarrow> OAuth2Server \<Rightarrow>
     http_response \<times> OAuth2Server" where
  "handleRefreshTokenGrant now refresh refreshToken s =
     (if refreshToken = [] then
        (writeOAuthError 400 ''invalid_request'' ''Missing refresh_token'', s)
      else
        (case refresh (oauthConfig s) refreshToken of
           Inl err \<Rightarrow> (writeOAuthError 400 ''invalid_grant'' ''Failed to refresh token'', s)
         | Inr newToken \<Rightarrow> (token_response now newToken, s)))"

text \<open>\<open>HandleToken\<close>. \<open>form\<close> gives \<open>r.FormValue\<close>, the empty string for a missing
  field; a body that does not parse as a form is \<open>None\<close>.\<close>

definition HandleToken ::
    "int \<Rightarrow> (oauth_config \<Rightarrow> string \<Rightarrow> string + token) \<Rightarrow> string \<Rightarrow>
     (string \<Rightarrow> string) option \<Rightarrow> OAuth2Server \<Rightarrow> http_response \<times> OAuth2Server" where
  "HandleToken now refresh method form s =
     (if method \<noteq> ''POST'' then (http_Error [] ''Method not allowed'' 405, s)
      else
        (case form of
           None \<Rightarrow> (writeOAuthError 400 ''invalid_request'' ''Invalid form data'', s)
         | Some fv \<Rightarrow>
             let grantType = fv ''grant_type''
             in if grantType = ''authorization_code'' then
                  handleAuthorizationCodeGrant now (fv ''code'') (fv ''code_verifier'') s
                else if grantType = ''refresh_token'' then
                  handleRefreshTokenGrant now refresh (fv ''refresh_token'') s
                else
                  (writeOAuthError 400 ''unsupported_grant_type''
                     (''Unsupported grant type: '' @ grantType), s)))"

subsection \<open>Token validation and the bearer middleware\<close>

text \<open>\<open>ValidateAccessToken\<close>: an error for the empty string, otherwise the server's
  configuration paired with a token holding the presented string. Nothing else is read.\<close>

definition ValidateAccessToken :: "OAuth2Server \<Rightarrow> string \<Rightarrow> string + (oauth_config \<times> token)" where
  "ValidateAccessToken s accessToken =
     (if accessToken = [] then Inl ''empty access token''
      else Inr (oauthConfig s, \<lparr>AccessToken = accessToken, RefreshToken = [], Expiry = None\<rparr>))"

text \<open>\<open>authMiddleware\<close>. \<open>BaseURL\<close> is \<open>s.config.BaseURL\<close>, \<open>authHeader\<close> is
  \<open>r.Header.Get("Authorization")\<close> (the empty string when the header is absent) and
  \<open>next\<close> is the response of the wrapped handler.\<close>

definition authMiddleware :: "string \<Rightarrow> OAuth2Server \<Rightarrow> http_response \<Rightarrow> string \<Rightarrow> http_response" where
  "authMiddleware BaseURL oauth2 next authHeader =
     (if authHeader = [] \<or> \<not> HasPrefix authHeader ''Bearer '' then
        (let resourceMetadata = BaseURL @ ''/.well-known/oauth-protected-resource''
         in http_Error
              (header_set ''WWW-Authenticate''
                 (''Bearer resource_metadata='' @ dquote @ resourceMetadata @ dquote) [])
              ''Authentication required'' 401)
      else
        (let accessToken = TrimPrefix authHeader ''Bearer ''
         in case ValidateAccessToken oauth2 accessToken of
              Inl err \<Rightarrow>
                (let resourceMetadata = BaseURL @ ''/.well-known/oauth-protected-resource''
                 in http_Error
                      (header_set ''WWW-Authenticate''
                         (''Bearer error='' @ dquote @ ''invalid_token'' @ dquote @
                          '', resource_metadata='' @ dquote @ resourceMetadata @ dquote) [])
                      ''Invalid token'' 401)
            | Inr ok \<Rightarrow> next))"

section \<open>The credential parser (\<open>parseCredentials\<close>, \<open>internal/mcp/oauth2.go\<close>)\<close>

record OAuthCredentials =
  cred_ClientID :: string
  cred_ClientSecret :: string

definition no_credentials :: OAuthCredentials where
  "no_credentials = \<lparr>cred_ClientID = [], cred_ClientSecret = []\<rparr>"

text \<open>
  \<open>json.Unmarshal\<close> into a struct, as far as \<open>parseCredentials\<close> uses it. The document is
  given decoded; text that is not JSON is \<open>None\<close> and makes every \<open>Unmarshal\<close> fail.
  A member is matched to the field whose tag equals its key, letter case ignored (ASCII
  letters only here); members with other keys are skipped; \<open>null\<close> leaves the field as it
  is; a value of another type leaves the field as it is and makes \<open>Unmarshal\<close> return an
  error after the remaining members have been decoded.
\<close>

definition lower :: "char \<Rightarrow> char" where
  "lower c = (let n = (of_char c :: nat) in if 65 \<le> n \<and> n \<le> 90 then char_of (n + 32) else c)"

definition key_matches :: "string \<Rightarrow> string \<Rightarrow> bool" where
  "key_matches key name = (map lower key = map lower name)"

datatype json_error = SyntaxError | UnmarshalTypeError

fun decode_credentials ::
    "(string \<times> json) list \<Rightarrow> OAuthCredentials \<times> json_error option \<Rightarrow> OAuthCredentials \<times> json_error option" where
  "decode_credentials [] acc = acc"
| "decode_credentials ((key, v) # ms) (c, err) =
     (if key_matches key ''client_id'' then
        (case v of
           JString x \<Rightarrow> decode_credentials ms (c\<lparr>cred_ClientID := x\<rparr>, err)
         | JNull \<Rightarrow> decode_credentials ms (c, err)
         | _ \<Rightarrow> decode_credentials ms (c, Some (case err of None \<Rightarrow> UnmarshalTypeError | Some e \<Rightarrow> e)))
      else if key_matches key ''client_secret'' then
        (case v of
           JString x \<Rightarrow> decode_credentials ms (c\<lparr>cred_ClientSecret := x\<rparr>, err)
         | JNull \<Rightarrow> decode_credentials ms (c, err)
         | _ \<Rightarrow> decode_credentials ms (c, Some (case err of None \<Rightarrow> UnmarshalTypeError | Some e \<Rightarrow> e)))
      else decode_credentials ms (c, err))"

text \<open>\<open>json.Unmarshal(data, &creds)\<close> with \<open>creds\<close> a zero \<open>OAuthCredentials\<close>.\<close>

definition Unmarshal_credentials :: "json option \<Rightarrow> OAuthCredentials \<times> json_error option" where
  "Unmarshal_credentials data =
     (case data of
        None \<Rightarrow> (no_credentials, Some SyntaxError)
      | Some (JObject ms) \<Rightarrow> decode_credentials ms (no_credentials, None)
      | Some JNull \<Rightarrow> (no_credentials, None)
      | Some _ \<Rightarrow> (no_credentials, Some UnmarshalTypeError))"

record wrapper =
  Web :: OAuthCredentials
  Installed :: OAuthCredentials

fun decode_wrapper ::
    "(string \<times> json) list \<Rightarrow> wrapper \<times> json_error option \<Rightarrow> wrapper \<times> json_error option" where
  "decode_wrapper [] acc = acc"
| "decode_wrapper ((key, v) # ms) (w, err) =
     (if key_matches key ''web'' then
        (case v of
           JObject fs \<Rightarrow>
             (case decode_credentials fs (Web w, err) of
                (c, err') \<Rightarrow> decode_wrapper ms (w\<lparr>Web := c\<rparr>, err'))
         | JNull \<Rightarrow> decode_wrapper ms (w, err)
         | _ \<Rightarrow> decode_wrapper ms (w, Some (case err of None \<Rightarrow> UnmarshalTypeError | Some e \<Rightarrow> e)))
      else if key_matches key ''installed'' then
        (case v of
           JObject fs \<Rightarrow>
             (case decode_credentials fs (Installed w, err) of
                (c, err') \<Rightarrow> decode_wrapper ms (w\<lparr>Installed := c\<rparr>, err'))
         | JNull \<Rightarrow> decode_wrapper ms (w, err)
         | _ \<Rightarrow> decode_wrapper ms (w, Some (case err of None \<Rightarrow> UnmarshalTypeError | Some e \<Rightarrow> e)))
      else decode_wrapper ms (w, err))"

text \<open>\<open>json.Unmarshal(data, &wrapper)\<close> with \<open>wrapper\<close> zero.\<close>

definition Unmarshal_wrapper :: "json option \<Rightarrow> wrapper \<times> json_error option" where
  "Unmarshal_wrapper data =
     (let zero = \<lparr>Web = no_credentials, Installed = no_credentials\<rparr>
      in case data of
           None \<Rightarrow> (zero, Some SyntaxError)
         | Some (JObject ms) \<Rightarrow> decode_wrapper ms (zero, None)
         | Some JNull \<Rightarrow> (zero, None)
         | Some _ \<Rightarrow> (zero, Some UnmarshalTypeError))"

datatype credentials_error =
    ParseCredentials json_error
  | MissingIdOrSecret

text \<open>\<open>parseCredentials\<close>: \<open>ParseCredentials e\<close> is the error
  \<open>"parse credentials: ..."\<close> and \<open>MissingIdOrSecret\<close> is
  \<open>"credentials missing client_id or client_secret"\<close>.\<close>

definition parseCredentials :: "json option \<Rightarrow> credentials_error + OAuthCredentials" where
  "parseCredentials data =
     (case Unmarshal_wrapper data of (w, err) \<Rightarrow>
        if err = None \<and> cred_ClientID (Web w) \<noteq> [] then
          Inr \<lparr>cred_ClientID = cred_ClientID (Web w), cred_ClientSecret = cred_ClientSecret (Web w)\<rparr>
        else if err = None \<and> cred_ClientID (Installed w) \<noteq> [] then
          Inr \<lparr>cred_ClientID = cred_ClientID (Installed w),
               cred_ClientSecret = cred_ClientSecret (Installed w)\<rparr>
        else
          (case Unmarshal_credentials data of (creds, err2) \<Rightarrow>
             (case err2 of
                Some e \<Rightarrow> Inl (ParseCredentials e)
              | None \<Rightarrow>
                  if cred_ClientID creds = [] \<or> cred_ClientSecret creds = [] then Inl MissingIdOrSecret
                  else Inr creds)))"

text \<open>The three accepted shapes; a field that is \<open>None\<close> is missing from the object.\<close>

definition credential_members :: "string option \<Rightarrow> string option \<Rightarrow> (string \<times> json) list" where
  "credential_members cid secret =
     (case cid of None \<Rightarrow> [] | Some x \<Rightarrow> [(''client_id'', JString x)]) @
     (case secret of None \<Rightarrow> [] | Some x \<Rightarrow> [(''client_secret'', JString x)])"

definition web_shape :: "string option \<Rightarrow> string option \<Rightarrow> json" where
  "web_shape cid secret = JObject [(''web'', JObject (credential_members cid secret))]"

definition installed_shape :: "string option \<Rightarrow> string option \<Rightarrow> json" where
  "installed_shape cid secret = JObject [(''installed'', JObject (credential_members cid secret))]"

definition flat_shape :: "string option \<Rightarrow> string option \<Rightarrow> json" where
  "flat_shape cid secret = JObject (credential_members cid secret)"

section \<open>The activity query (\<open>QueryDriveActivity\<close>, \<open>internal/drive/activity.go\<close>)\<close>

record query_request =
  PageSize :: int
  Filter :: string
  PageToken :: string

record 'a query_response =
  Activities :: "'a list"
  NextPageToken :: string

text \<open>
  The upstream service is the list of its answers to the successive calls of
  \<open>activityService.Activity.Query(req).Do()\<close>, each a function of the request: an error
  message or a page. A query that needs more answers than the list holds has no result
  (\<open>None\<close>). The \<open>event\<close>s record, in order, every upstream call and every
  \<open>time.Sleep\<close>, in seconds.
\<close>

type_synonym 'a activity_service = "(query_request \<Rightarrow> string + 'a query_response) list"

datatype event = Query query_request | Sleep nat

definition maxRetries :: nat where
  "maxRetries = 3"

definition baseDelay :: nat where
  "baseDelay = 2"

definition maxPagesPerBatch :: nat where
  "maxPagesPerBatch = 90"

definition rate_limited :: "string \<Rightarrow> bool" where
  "rate_limited err = (Contains err ''429'' \<or> Contains err ''rateLimitExceeded'')"

text \<open>The retry loop \<open>for retry := 0; retry <= maxRetries; retry++\<close>. The result is the
  error the query returns with, or the page, together with the answers not yet used and
  the events so far. Leaving the loop by its condition would go on with a nil response.\<close>

fun query_retry ::
    "nat \<Rightarrow> query_request \<Rightarrow> 'a activity_service \<Rightarrow> event list \<Rightarrow>
     ((string + 'a query_response) \<times> 'a activity_service \<times> event list) option" where
  "query_retry retry req [] evs =
     (if retry > maxRetries then Some (Inl ''nil pointer dereference'', [], evs) else None)"
| "query_retry retry req (call # rest) evs =
     (if retry > maxRetries then Some (Inl ''nil pointer dereference'', call # rest, evs)
      else
        (case call req of
           Inr resp \<Rightarrow> Some (Inr resp, rest, evs @ [Query req])
         | Inl err \<Rightarrow>
             if rate_limited err \<and> retry < maxRetries then
               query_retry (Suc retry) req rest (evs @ [Query req, Sleep (baseDelay * 2 ^ retry)])
             else
               Some (Inl (''unable to query drive activity: '' @ err), rest, evs @ [Query req])))"

text \<open>The loop over the activities of one page: each is parsed and appended; the flag
  says that \<open>maxResults\<close> was reached and the query returned from inside the loop.\<close>

fun collect :: "int \<Rightarrow> ('a \<Rightarrow> 'b) \<Rightarrow> 'a list \<Rightarrow> 'b list \<Rightarrow> 'b list \<times> bool" where
  "collect maxResults parse [] activities = (activities, False)"
| "collect maxResults parse (a # as) activities =
     (let activities1 = activities @ [parse a]
      in if maxResults > 0 \<and> int (length activities1) \<ge> maxResults then (activities1, True)
         else collect maxResults parse as activities1)"

lemma query_retry_shorter:
  "query_retry retry req svc evs = Some (Inr resp, rest, evs') \<Longrightarrow> length rest < length svc"
proof (induction svc arbitrary: retry evs)
  case Nil
  then show ?case by (simp split: if_splits)
next
  case (Cons call svc)
  then show ?case by (fastforce split: if_splits sum.splits)
qed

text \<open>The loop over the pages.\<close>

function query_pages ::
    "int \<Rightarrow> ('a \<Rightarrow> 'b) \<Rightarrow> query_request \<Rightarrow> string \<Rightarrow> nat \<Rightarrow> 'b list \<Rightarrow>
     'a activity_service \<Rightarrow> event list \<Rightarrow> ((string + 'b list) \<times> event list) option" where
  "query_pages maxResults parse req pageToken pageCount activities svc evs =
     (let req1 = (if pageToken \<noteq> [] then req\<lparr>PageToken := pageToken\<rparr> else req)
      in case query_retry 0 req1 svc evs of
           None \<Rightarrow> None
         | Some (Inl err, rest, evs1) \<Rightarrow> Some (Inl err, evs1)
         | Some (Inr resp, rest, evs1) \<Rightarrow>
             (let pageCount1 = pageCount + 1;
                  evs2 = (if pageCount1 mod maxPagesPerBatch = 0 then evs1 @ [Sleep 60] else evs1)
              in case collect maxResults parse (Activities resp) activities of
                   (activities1, True) \<Rightarrow> Some (Inr activities1, evs2)
                 | (activities1, False) \<Rightarrow>
                     if NextPageToken resp = [] then Some (Inr activities1, evs2)
                     else if maxResults > 0 \<and> int (length activities1) \<ge> maxResults then
                       Some (Inr activities1, evs2)
                     else query_pages maxResults parse req1 (NextPageToken resp) pageCount1
                            activities1 rest evs2))"
  by pat_completeness auto
termination
  by (relation "measure (\<lambda>(maxResults, parse, req, pageToken, pageCount, activities, svc, evs). length svc)")
     (auto dest: query_retry_shorter)

text \<open>\<open>QueryDriveActivity\<close>. \<open>cutoff\<close> formats \<open>time.Now().AddDate(0, 0, -daysBack)\<close>
  as RFC 3339 and \<open>parse\<close> builds the \<open>DriveActivityInfo\<close> of an upstream activity.\<close>

definition QueryDriveActivity ::
    "(int \<Rightarrow> string) \<Rightarrow> ('a \<Rightarrow> 'b) \<Rightarrow> 'a activity_service \<Rightarrow> int \<Rightarrow> int \<Rightarrow>
     ((string + 'b list) \<times> event list) option" where
  "QueryDriveActivity cutoff parse activityService daysBack maxResults =
     (let pageSize = (if maxResults > 0 \<and> maxResults < 100 then maxResults else 100);
          req = \<lparr>PageSize = pageSize,
                 Filter = (if daysBack > 0 then ''time >= '' @ dquote @ cutoff daysBack @ dquote else []),
                 PageToken = []\<rparr>
      in query_pages maxResults parse req [] 0 [] activityService [])"

subsection \<open>The \<open>drive_activity_history\<close> tool (\<open>internal/mcp/tools.go\<close>)\<close>

text \<open>Go's conversion of a \<open>float64\<close> to \<open>int64\<close> truncates towards zero; for a value
  outside the range of \<open>int64\<close> the result depends on the platform and is the parameter
  \<open>overflow\<close>.\<close>

definition int64_of_float :: "int \<Rightarrow> rat \<Rightarrow> int" where
  "int64_of_float overflow x =
     (let t = (if x \<ge> 0 then \<lfloor>x\<rfloor> else \<lceil>x\<rceil>)
      in if - (2 ^ 63) \<le> t \<and> t < 2 ^ 63 then t else overflow)"

text \<open>The handler. \<open>args\<close> are the decoded arguments of the call; \<open>activitySrv\<close> is what
  \<open>getActivityService\<close> returns. The result holds one entry for each activity.\<close>

definition activity_history ::
    "int \<Rightarrow> (int \<Rightarrow> string) \<Rightarrow> ('a \<Rightarrow> 'b) \<Rightarrow> (string + 'a activity_service) \<Rightarrow>
     (string \<rightharpoonup> json) \<Rightarrow> ((string + 'b list) \<times> event list) option" where
  "activity_history overflow cutoff parse activitySrv args =
     (let daysBack = (case args ''daysBack'' of
                        Some (JNumber db) \<Rightarrow> if db > 0 then int64_of_float overflow db else 7
                      | _ \<Rightarrow> 7);
          maxResults0 = (case args ''maxResults'' of
                           Some (JNumber mr) \<Rightarrow> if mr > 0 then int64_of_float overflow mr else 100
                         | _ \<Rightarrow> 100);
          maxResults = (if maxResults0 > 200 then 200 else maxResults0)
      in case activitySrv of
           Inl err \<Rightarrow> Some (Inl (''authentication failed: '' @ err), [])
         | Inr srv \<Rightarrow>
             (case QueryDriveActivity cutoff parse srv daysBack maxResults of
                None \<Rightarrow> None
              | Some (Inl err, evs) \<Rightarrow> Some (Inl (''query activity failed: '' @ err), evs)
              | Some (Inr activities, evs) \<Rightarrow> Some (Inr activities, evs)))"

subsection \<open>Reading the events of a query\<close>

text \<open>An upstream answer that fails with the message \<open>e\<close>, and one that returns the page
  \<open>p\<close>, whatever the request.\<close>

definition fails :: "string \<Rightarrow> query_request \<Rightarrow> string + 'a query_response" where
  "fails e = (\<lambda>req. Inl e)"

definition returns :: "'a query_response \<Rightarrow> query_request \<Rightarrow> string + 'a query_response" where
  "returns p = (\<lambda>req. Inr p)"

text \<open>Failed attempts at \<open>req\<close>, each followed by a wait of the given number of seconds.\<close>

definition attempts :: "query_request \<Rightarrow> nat list \<Rightarrow> event list" where
  "attempts req delays = concat (map (\<lambda>d. [Query req, Sleep d]) delays)"

text \<open>The events of fetching the given pages one after the other with no failure, the
  first with the page token \<open>pageToken\<close>, when \<open>pageCount\<close> pages were fetched before: each
  call, and the pause of 60 seconds after every 90th page.\<close>

fun paced_fetches :: "query_request \<Rightarrow> string \<Rightarrow> nat \<Rightarrow> 'a query_response list \<Rightarrow> event list" where
  "paced_fetches req pageToken pageCount [] = []"
| "paced_fetches req pageToken pageCount (p # ps) =
     (let req1 = (if pageToken \<noteq> [] then req\<lparr>PageToken := pageToken\<rparr> else req)
      in Query req1 # (if Suc pageCount mod 90 = 0 then [Sleep 60] else []) @
         paced_fetches req1 (NextPageToken p) (Suc pageCount) ps)"




section \<open>The storage adapter (\<open>internal/drive/service.go\<close>) and its tools\<close>

record drive_file =
  FileId :: string
  Name :: string
  MimeType :: string
  Parents :: "string list"
  SharedWithMeTime :: string
  Trashed :: bool
  Size :: int
  CreatedTime :: string
  ModifiedTime :: string
  WebViewLink :: string
  Owners :: "(string \<times> string) list"

record PathComponent =
  pc_ID :: string
  pc_Name :: string
  pc_MimeType :: string

subsection \<open>Path reconstruction\<close>

text \<open>
  \<open>GetFilePath\<close>. \<open>get\<close> is the upstream call
  \<open>Files.Get(id).Fields(...).SupportsAllDrives(true).Do()\<close>: an error message or the file.
  The loop \<open>for currentID != ""\<close> has no bound of its own; where it does not end, the
  result is \<open>None\<close>.
\<close>

partial_function (option) walk_parents ::
    "(string \<Rightarrow> string + drive_file) \<Rightarrow> string \<Rightarrow> PathComponent list \<Rightarrow> PathComponent list option" where
  "walk_parents get currentID path =
     (if currentID = [] then Some path
      else
        (case get currentID of
           Inl err \<Rightarrow> Some path
         | Inr file \<Rightarrow>
             (let path1 = \<lparr>pc_ID = FileId file, pc_Name = Name file, pc_MimeType = MimeType file\<rparr> # path
              in if length (Parents file) > 0 then walk_parents get (hd (Parents file)) path1
                 else if SharedWithMeTime file \<noteq> [] then
                   Some (\<lparr>pc_ID = ''shared'', pc_Name = ''Shared with me'', pc_MimeType = ''special''\<rparr> # path1)
                 else
                   Some (\<lparr>pc_ID = ''root'', pc_Name = ''My Drive'', pc_MimeType = ''special''\<rparr> # path1))))"

text \<open>The second component is the error \<open>GetFilePath\<close> returns, always \<open>nil\<close>.\<close>

definition GetFilePath ::
    "(string \<Rightarrow> string + drive_file) \<Rightarrow> string \<Rightarrow> (PathComponent list \<times> string option) option" where
  "GetFilePath get fileID =
     (case walk_parents get fileID [] of None \<Rightarrow> None | Some path \<Rightarrow> Some (path, None))"

text \<open>
  For stating what the walk returns: the component of a file, the pseudo-root put above a
  file without parents, and \<open>walk_to get fileID fs\<close>, which is \<open>Some next\<close> when, starting
  at \<open>fileID\<close>, the files \<open>fs\<close> are fetched one after the other, each reached through the
  first parent of the one before and each with a parent, the first parent of the last
  being \<open>next\<close>.
\<close>

definition component :: "drive_file \<Rightarrow> PathComponent" where
  "component file = \<lparr>pc_ID = FileId file, pc_Name = Name file, pc_MimeType = MimeType file\<rparr>"

definition pseudo_root :: "drive_file \<Rightarrow> PathComponent" where
  "pseudo_root file =
     (if SharedWithMeTime file \<noteq> []
      then \<lparr>pc_ID = ''shared'', pc_Name = ''Shared with me'', pc_MimeType = ''special''\<rparr>
      else \<lparr>pc_ID = ''root'', pc_Name = ''My Drive'', pc_MimeType = ''special''\<rparr>)"

fun walk_to :: "(string \<Rightarrow> string + drive_file) \<Rightarrow> string \<Rightarrow> drive_file list \<Rightarrow> string option" where
  "walk_to get fileID [] = Some fileID"
| "walk_to get fileID (f # fs) =
     (if fileID \<noteq> [] \<and> get fileID = Inr f \<and> Parents f \<noteq> []
      then walk_to get (hd (Parents f)) fs else None)"

record FileInfo =
  fi_ID :: string
  fi_Name :: string
  fi_MimeType :: string
  fi_Size :: int
  fi_CreatedTime :: string
  fi_ModifiedTime :: string
  fi_WebViewLink :: string
  fi_Owners :: "(string \<times> string) list"
  fi_Path :: "PathComponent list"

text \<open>\<open>GetFileInfo\<close>. \<open>meta\<close> is its own upstream call for the metadata; the error of
  \<open>GetFilePath\<close> is dropped (\<open>path, _ := ds.GetFilePath(fileID)\<close>).\<close>

definition GetFileInfo ::
    "(string \<Rightarrow> string + drive_file) \<Rightarrow> (string \<Rightarrow> string + drive_file) \<Rightarrow> string \<Rightarrow>
     (string + FileInfo) option" where
  "GetFileInfo meta get fileID =
     (case meta fileID of
        Inl err \<Rightarrow> Some (Inl err)
      | Inr file \<Rightarrow>
          (case GetFilePath get fileID of
             None \<Rightarrow> None
           | Some (path, err) \<Rightarrow>
               Some (Inr \<lparr>fi_ID = FileId file, fi_Name = Name file, fi_MimeType = MimeType file,
                          fi_Size = Size file, fi_CreatedTime = CreatedTime file,
                          fi_ModifiedTime = ModifiedTime file, fi_WebViewLink = WebViewLink file,
                          fi_Owners = Owners file, fi_Path = path\<rparr>)))"

text \<open>The \<open>drive_file_info\<close> tool. \<open>driveSrv\<close> is what \<open>getDriveService\<close> returns: an
  error or the two upstream calls. The result is the JSON object of the tool, its keys in
  the order \<open>json.Marshal\<close> writes a map.\<close>

definition file_info ::
    "(string + (string \<Rightarrow> string + drive_file) \<times> (string \<Rightarrow> string + drive_file)) \<Rightarrow> string \<Rightarrow>
     (string + json) option" where
  "file_info driveSrv fileID =
     (case driveSrv of
        Inl err \<Rightarrow> Some (Inl (''authentication failed: '' @ err))
      | Inr (meta, get) \<Rightarrow>
          (case GetFileInfo meta get fileID of
             None \<Rightarrow> None
           | Some (Inl err) \<Rightarrow> Some (Inl (''get file info failed: '' @ err))
           | Some (Inr info) \<Rightarrow>
               Some (Inr (JObject
                 [(''createdTime'', JString (fi_CreatedTime info)),
                  (''id'', JString (fi_ID info)),
                  (''mimeType'', JString (fi_MimeType info)),
                  (''modifiedTime'', JString (fi_ModifiedTime info)),
                  (''name'', JString (fi_Name info)),
                  (''owners'', JArray (map (\<lambda>(d, e). JObject [(''displayName'', JString d),
                                                               (''emailAddress'', JString e)])
                                         (fi_Owners info))),
                  (''path'', JArray (map (\<lambda>p. JString (pc_Name p)) (fi_Path info))),
                  (''size'', JNumber (of_int (fi_Size info))),
                  (''webViewLink'', JString (fi_WebViewLink info))]))))"

subsection \<open>Folder listing\<close>

text \<open>\<open>ListFolder\<close>. \<open>list\<close> is the upstream call \<open>Files.List().Q(query)...Do()\<close>, a function
  of the query: an error message or the files, in the order the upstream returns them.\<close>

definition ListFolder :: "(string \<Rightarrow> string + drive_file list) \<Rightarrow> string \<Rightarrow> string + drive_file list" where
  "ListFolder list folderID =
     (let query = [CHR 0x27] @ folderID @ [CHR 0x27] @ '' in parents and trashed = false''
      in case list query of Inl err \<Rightarrow> Inl err | Inr fileList \<Rightarrow> Inr fileList)"

definition IsFolder :: "drive_file \<Rightarrow> bool" where
  "IsFolder item = (MimeType item = ''application/vnd.google-apps.folder'')"

text \<open>One entry of the results of \<open>drive_search\<close> and \<open>drive_folder_list\<close>.\<close>

definition item_entry :: "drive_file \<Rightarrow> json" where
  "item_entry f =
     JObject [(''id'', JString (FileId f)),
              (''mimeType'', JString (MimeType f)),
              (''modifiedTime'', JString (ModifiedTime f)),
              (''name'', JString (Name f)),
              (''size'', JNumber (of_int (Size f)))]"

text \<open>The \<open>drive_folder_list\<close> tool.\<close>

definition folder_list ::
    "(string + (string \<Rightarrow> string + drive_file list)) \<Rightarrow> string \<Rightarrow> string + json list" where
  "folder_list driveSrv folderID =
     (case driveSrv of
        Inl err \<Rightarrow> Inl (''authentication failed: '' @ err)
      | Inr list \<Rightarrow>
          (case ListFolder list folderID of
             Inl err \<Rightarrow> Inl (''list folder failed: '' @ err)
           | Inr files \<Rightarrow> Inr (map item_entry files)))"

text \<open>The order of the command-line listing (\<open>runFolderList\<close>, \<open>src/cli.go\<close>): the
  comparison function passed to \<open>sort.Slice\<close>, and what it means for a list to be in that
  order.\<close>

definition folder_less :: "drive_file \<Rightarrow> drive_file \<Rightarrow> bool" where
  "folder_less x y =
     (if IsFolder x \<noteq> IsFolder y then IsFolder x else str_less (Name x) (Name y))"

fun folders_first :: "drive_file list \<Rightarrow> bool" where
  "folders_first [] = True"
| "folders_first (x # xs) = (list_all (\<lambda>y. \<not> folder_less y x) xs \<and> folders_first xs)"

subsection \<open>Moving a file to the trash\<close>

text \<open>
  The upstream store as far as \<open>drive_delete\<close> touches it: the files by identifier, the
  identifiers the caller may not modify, and the identifiers of the \<open>Files.Update\<close> calls
  received so far.
\<close>

record drive =
  files :: "string \<rightharpoonup> drive_file"
  read_only :: "string list"
  updates :: "string list"

definition Files_Get :: "drive \<Rightarrow> string \<Rightarrow> string + drive_file" where
  "Files_Get d fileID =
     (case files d fileID of None \<Rightarrow> Inl (''File not found: '' @ fileID) | Some f \<Rightarrow> Inr f)"

text \<open>\<open>Files.Update(fileID, &File{Trashed: true}).Do()\<close>.\<close>

definition Files_Update_trashed :: "string \<Rightarrow> drive \<Rightarrow> (string + drive_file) \<times> drive" where
  "Files_Update_trashed fileID d =
     (let d1 = d\<lparr>updates := updates d @ [fileID]\<rparr>
      in case files d fileID of
           None \<Rightarrow> (Inl (''File not found: '' @ fileID), d1)
         | Some f \<Rightarrow>
             if fileID \<in> set (read_only d) then (Inl ''insufficient permissions'', d1)
             else (Inr (f\<lparr>Trashed := True\<rparr>), d1\<lparr>files := (files d)(fileID \<mapsto> f\<lparr>Trashed := True\<rparr>)\<rparr>))"

definition delete_result :: "drive_file \<Rightarrow> string \<Rightarrow> json" where
  "delete_result file message =
     JObject [(''fileId'', JString (FileId file)), (''fileName'', JString (Name file)),
              (''message'', JString message)]"

text \<open>The \<open>drive_delete\<close> tool. \<open>auth\<close> is the error of \<open>getDriveService\<close>, if any.\<close>

definition drive_delete :: "string option \<Rightarrow> string \<Rightarrow> drive \<Rightarrow> (string + json) \<times> drive" where
  "drive_delete auth fileID d =
     (case auth of
        Some err \<Rightarrow> (Inl (''authentication failed: '' @ err), d)
      | None \<Rightarrow>
          (case Files_Get d fileID of
             Inl err \<Rightarrow> (Inl (''file not found: '' @ err), d)
           | Inr file \<Rightarrow>
               if Trashed file then (Inr (delete_result file ''File is already in trash''), d)
               else
                 (case Files_Update_trashed fileID d of
                    (Inl err, d1) \<Rightarrow> (Inl (''trash file failed: '' @ err), d1)
                  | (Inr updated, d1) \<Rightarrow> (Inr (delete_result file ''File moved to trash''), d1))))"

section \<open>Example values\<close>

definition example_server :: OAuth2Server where
  "example_server =
     \<lparr>baseURL = ''https://drive.mcp.example.com'',
      oauthConfig = \<lparr>cfg_ClientID = ''test-google-client-id'', cfg_ClientSecret = ''secret'',
                     cfg_RedirectURL = []\<rparr>,
      clients = Map.empty, states = Map.empty, codes = Map.empty\<rparr>"

definition example_state :: authState where
  "example_state =
     \<lparr>as_ClientID = ''test-client'', as_RedirectURI = ''http://localhost:3000/callback'',
      as_CodeChallenge = ''E9Melhoa2OwvFrEMTJguCHaoeK1t8URWbuGJSstw-cM'', as_CodeMethod = ''S256'',
      as_ClientState = ''xyz'', as_CreatedAt = 0\<rparr>"

definition example_token :: token where
  "example_token = \<lparr>AccessToken = ''ya29.access'', RefreshToken = ''1//refresh'', Expiry = None\<rparr>"

definition example_code :: authCode where
  "example_code =
     \<lparr>ac_Code = ''c0de'', ac_ClientID = ''test-client'',
      ac_RedirectURI = ''http://localhost:3000/callback'',
      ac_CodeChallenge = ''E9Melhoa2OwvFrEMTJguCHaoeK1t8URWbuGJSstw-cM'', ac_CodeMethod = ''S256'',
      ac_GoogleToken = example_token, ac_CreatedAt = 0\<rparr>"

definition example_ops :: "section_op list" where
  "example_ops =
     [AuthorizeStore ''st4te'' example_state, CallbackLookup ''st4te'', Sweep 5,
      CallbackStore ''c0de'' example_code, CallbackLookup ''st4te'',
      TokenLookup ''c0de'', TokenLookup ''c0de'']"

definition example_server_with_code :: OAuth2Server where
  "example_server_with_code = example_server\<lparr>codes := [''c0de'' \<mapsto> example_code]\<rparr>"

definition example_page :: "string \<Rightarrow> string query_response" where
  "example_page next = \<lparr>Activities = replicate 100 ''edit'', NextPageToken = next\<rparr>"

definition example_service :: "string activity_service" where
  "example_service = map returns [example_page ''page-2'', example_page ''page-3'', example_page []]"





definition example_file :: "string \<Rightarrow> string \<Rightarrow> string \<Rightarrow> string list \<Rightarrow> drive_file" where
  "example_file i n m ps =
     \<lparr>FileId = i, Name = n, MimeType = m, Parents = ps, SharedWithMeTime = [], Trashed = False,
      Size = 1024, CreatedTime = ''2026-01-01T00:00:00Z'', ModifiedTime = ''2026-01-02T00:00:00Z'',
      WebViewLink = [], Owners = [(''Ada'', ''ada@example.com'')]\<rparr>"

definition example_report :: drive_file where
  "example_report = example_file ''f1'' ''report.pdf'' ''application/pdf'' [''d1'']"

definition example_projects :: drive_file where
  "example_projects = example_file ''d1'' ''Projects'' ''application/vnd.google-apps.folder'' [''d0'']"

definition example_work :: drive_file where
  "example_work = example_file ''d0'' ''Work'' ''application/vnd.google-apps.folder'' []"

text \<open>An upstream that knows the three files, and one where fetching \<open>d0\<close> fails.\<close>

definition example_get :: "string \<Rightarrow> string + drive_file" where
  "example_get fileID =
     (if fileID = ''f1'' then Inr example_report
      else if fileID = ''d1'' then Inr example_projects
      else if fileID = ''d0'' then Inr example_work
      else Inl ''File not found'')"

definition example_get_failing :: "string \<Rightarrow> string + drive_file" where
  "example_get_failing fileID =
     (if fileID = ''d0'' then Inl ''backend error'' else example_get fileID)"

definition example_notes :: drive_file where
  "example_notes = example_file ''n1'' ''a.txt'' ''text/plain'' [''root'']"

definition example_folder :: drive_file where
  "example_folder = example_file ''d2'' ''b'' ''application/vnd.google-apps.folder'' [''root'']"

text \<open>An upstream that lists a text file before a folder.\<close>

definition example_list :: "string \<Rightarrow> string + drive_file list" where
  "example_list query = Inr [example_notes, example_folder]"

definition example_drive :: drive where
  "example_drive = \<lparr>files = [''f1'' \<mapsto> example_report], read_only = [], updates = []\<rparr>"



section \<open>Bearer authentication at the RPC endpoint\<close>

lemma HasPrefix_append [simp]: "HasPrefix (p @ s) p"
  by (simp add: HasPrefix_def)

lemma TrimPrefix_append [simp]: "TrimPrefix (p @ s) p = s"
  by (simp add: TrimPrefix_def)

lemma header_get_set [simp]: "header_get (header_set k v hs) k = v"
  by (simp add: header_get_def header_set_def)

lemma http_Error_status [simp]: "status (http_Error hs msg code) = code"
  by (simp add: http_Error_def)

lemma http_Error_challenge [simp]:
  "header_get (headers (http_Error (header_set ''WWW-Authenticate'' v []) msg code)) ''WWW-Authenticate'' = v"
  by (simp add: http_Error_def header_get_def header_set_def)

lemma authMiddleware_no_bearer:
  assumes "\<not> HasPrefix h ''Bearer ''"
  shows "authMiddleware base srv next h =
           http_Error (header_set ''WWW-Authenticate''
             (''Bearer resource_metadata='' @ dquote @ base @ ''/.well-known/oauth-protected-resource'' @ dquote) [])
             ''Authentication required'' 401"
  using assms by (simp add: authMiddleware_def)

lemma authMiddleware_empty_bearer:
  "authMiddleware base srv next ''Bearer '' =
     http_Error (header_set ''WWW-Authenticate''
       (''Bearer error='' @ dquote @ ''invalid_token'' @ dquote @ '', resource_metadata='' @ dquote
          @ base @ ''/.well-known/oauth-protected-resource'' @ dquote) [])
       ''Invalid token'' 401"
proof -
  have "HasPrefix ''Bearer '' ''Bearer ''" and "TrimPrefix ''Bearer '' ''Bearer '' = []"
    by (simp_all add: TrimPrefix_def HasPrefix_def)
  then show ?thesis
    by (simp add: authMiddleware_def ValidateAccessToken_def)
qed

lemma authMiddleware_forward:
  assumes "tok \<noteq> []"
  shows "authMiddleware base srv next (''Bearer '' @ tok) = next"
proof -
  have "HasPrefix (''Bearer '' @ tok) ''Bearer ''" and "TrimPrefix (''Bearer '' @ tok) ''Bearer '' = tok"
    by (rule HasPrefix_append, rule TrimPrefix_append)
  with assms show ?thesis
    by (simp only: authMiddleware_def ValidateAccessToken_def Let_def) simp
qed

text \<open>
  C4. A request whose \<open>Authorization\<close> header is absent (read as the empty string) or does
  not start with \<open>Bearer \<close> is answered 401 with the challenge
  \<open>Bearer resource_metadata="{base_url}/.well-known/oauth-protected-resource"\<close>; the header
  \<open>Bearer \<close> with an empty token is answered 401 with the same \<open>resource_metadata\<close> and
  \<open>error="invalid_token"\<close> added; for every non-empty token, validation reads nothing but
  the server's configuration, returns it paired with the presented token, and the response
  is the wrapped handler's.
\<close>

theorem authMiddleware_bearer:
  "(\<not> HasPrefix h ''Bearer '' \<longrightarrow>
      status (authMiddleware base srv next h) = 401 \<and>
      header_get (headers (authMiddleware base srv next h)) ''WWW-Authenticate'' =
        ''Bearer resource_metadata='' @ dquote @ base @ ''/.well-known/oauth-protected-resource'' @ dquote) \<and>
   status (authMiddleware base srv next ''Bearer '') = 401 \<and>
   header_get (headers (authMiddleware base srv next ''Bearer '')) ''WWW-Authenticate'' =
     ''Bearer error='' @ dquote @ ''invalid_token'' @ dquote @ '', resource_metadata='' @ dquote
       @ base @ ''/.well-known/oauth-protected-resource'' @ dquote \<and>
   ValidateAccessToken srv [] = Inl ''empty access token'' \<and>
   (tok \<noteq> [] \<longrightarrow>
      ValidateAccessToken srv tok =
        Inr (oauthConfig srv, \<lparr>AccessToken = tok, RefreshToken = [], Expiry = None\<rparr>) \<and>
      authMiddleware base srv next (''Bearer '' @ tok) = next)"
  by (simp add: authMiddleware_no_bearer authMiddleware_empty_bearer authMiddleware_forward
      ValidateAccessToken_def del: append.simps)

theorem authMiddleware_bearer_witness:
  "\<not> HasPrefix ''Basic dXNlcjpwdw=='' ''Bearer '' \<and>
   status (authMiddleware ''https://drive.mcp.example.com'' example_server
      \<lparr>status = 200, headers = [], body = Text ''ok''\<rparr> ''Basic dXNlcjpwdw=='') = 401 \<and>
   ''valid-test-token'' \<noteq> [] \<and>
   authMiddleware ''https://drive.mcp.example.com'' example_server
      \<lparr>status = 200, headers = [], body = Text ''ok''\<rparr> (''Bearer '' @ ''valid-test-token'')
     = \<lparr>status = 200, headers = [], body = Text ''ok''\<rparr>"
  using authMiddleware_bearer [of "''Basic dXNlcjpwdw==''" "''https://drive.mcp.example.com''"
      example_server "\<lparr>status = 200, headers = [], body = Text ''ok''\<rparr>" "''valid-test-token''"]
  by (simp add: HasPrefix_def)

section \<open>Single use of states and codes\<close>

lemma lookup_delete_state_found:
  "fst (lookup_delete_state k s) = states s k"
  by (simp add: lookup_delete_state_def split: option.splits)

lemma lookup_delete_state_states:
  "states (snd (lookup_delete_state k s)) = (states s)(k := None)"
  by (auto simp: lookup_delete_state_def split: option.splits)

lemma lookup_delete_state_codes:
  "codes (snd (lookup_delete_state k s)) = codes s"
  by (simp add: lookup_delete_state_def split: option.splits)

lemma lookup_delete_code_found:
  "fst (lookup_delete_code k s) = codes s k"
  by (simp add: lookup_delete_code_def split: option.splits)

lemma lookup_delete_code_codes:
  "codes (snd (lookup_delete_code k s)) = (codes s)(k := None)"
  by (auto simp: lookup_delete_code_def split: option.splits)

lemma lookup_delete_code_states:
  "states (snd (lookup_delete_code k s)) = states s"
  by (simp add: lookup_delete_code_def split: option.splits)

lemma cleanup_states_None: "states s k = None \<Longrightarrow> states (cleanup now s) k = None"
  by (simp add: cleanup_def)

lemma cleanup_codes_None: "codes s k = None \<Longrightarrow> codes (cleanup now s) k = None"
  by (simp add: cleanup_def)

text \<open>In any execution, the lookups of a state that find it are at most as many as the
  times it was stored, counting the entry present at the start.\<close>

lemma state_successes_bound:
  "successes (CallbackLookup k) (run ops s)
     \<le> (if states s k = None then 0 else 1) + state_mints k ops"
proof (induction ops arbitrary: s)
  case Nil
  show ?case by (simp add: successes_def)
next
  case (Cons x ops)
  obtain found s' where ex: "exec x s = (found, s')"
    by (cases "exec x s")
  have run: "successes (CallbackLookup k) (run (x # ops) s)
      = (if x = CallbackLookup k \<and> found then 1 else 0) + successes (CallbackLookup k) (run ops s')"
    using ex by (simp add: successes_def)
  have mints: "state_mints k (x # ops) = (if stores_state k x then 1 else 0) + state_mints k ops"
    by (simp add: state_mints_def)
  have step: "(if x = CallbackLookup k \<and> found then 1 else 0) + (if states s' k = None then 0 else (1::nat))
      \<le> (if states s k = None then 0 else 1) + (if stores_state k x then 1 else 0)"
  proof (cases x)
    case (AuthorizeStore k' st)
    with ex show ?thesis by (auto simp: store_state_def)
  next
    case (CallbackLookup k')
    with ex have "found = (states s k' \<noteq> None)" and "states s' = (states s)(k' := None)"
      using lookup_delete_state_found [of k' s] lookup_delete_state_states [of k' s]
      by (auto split: prod.splits)
    with CallbackLookup show ?thesis by auto
  next
    case (CallbackStore k' c)
    with ex show ?thesis by (auto simp: store_code_def)
  next
    case (TokenLookup k')
    with ex have "states s' = states s"
      using lookup_delete_code_states [of k' s] by (auto split: prod.splits)
    with TokenLookup show ?thesis by auto
  next
    case (Register now secret clientID uris)
    with ex show ?thesis by (auto simp: registerClientWithID_def Let_def)
  next
    case (Sweep now)
    with ex show ?thesis using cleanup_states_None [of s k now] by auto
  qed
  from Cons.IH [of s'] run mints step show ?case by linarith
qed

lemma code_successes_bound:
  "successes (TokenLookup k) (run ops s)
     \<le> (if codes s k = None then 0 else 1) + code_mints k ops"
proof (induction ops arbitrary: s)
  case Nil
  show ?case by (simp add: successes_def)
next
  case (Cons x ops)
  obtain found s' where ex: "exec x s = (found, s')"
    by (cases "exec x s")
  have run: "successes (TokenLookup k) (run (x # ops) s)
      = (if x = TokenLookup k \<and> found then 1 else 0) + successes (TokenLookup k) (run ops s')"
    using ex by (simp add: successes_def)
  have mints: "code_mints k (x # ops) = (if stores_code k x then 1 else 0) + code_mints k ops"
    by (simp add: code_mints_def)
  have step: "(if x = TokenLookup k \<and> found then 1 else 0) + (if codes s' k = None then 0 else (1::nat))
      \<le> (if codes s k = None then 0 else 1) + (if stores_code k x then 1 else 0)"
  proof (cases x)
    case (AuthorizeStore k' st)
    with ex show ?thesis by (auto simp: store_state_def)
  next
    case (CallbackLookup k')
    with ex have "codes s' = codes s"
      using lookup_delete_state_codes [of k' s] by (auto split: prod.splits)
    with CallbackLookup show ?thesis by auto
  next
    case (CallbackStore k' c)
    with ex show ?thesis by (auto simp: store_code_def)
  next
    case (TokenLookup k')
    with ex have "found = (codes s k' \<noteq> None)" and "codes s' = (codes s)(k' := None)"
      using lookup_delete_code_found [of k' s] lookup_delete_code_codes [of k' s]
      by (auto split: prod.splits)
    with TokenLookup show ?thesis by auto
  next
    case (Register now secret clientID uris)
    with ex show ?thesis by (auto simp: registerClientWithID_def Let_def)
  next
    case (Sweep now)
    with ex show ?thesis using cleanup_codes_None [of s k now] by auto
  qed
  from Cons.IH [of s'] run mints step show ?case by linarith
qed

lemma HandleCallback_absent:
  assumes "states s k = None"
  shows "status (fst (HandleCallback now exchange ourCode q_error q_code k accept s)) = 400"
  using assms by (simp add: HandleCallback_def lookup_delete_state_def writeOAuthError_def)

lemma HandleCallback_absent_error:
  assumes "states s k = None" "q_error = []" "q_code \<noteq> []" "k \<noteq> []"
  shows "HandleCallback now exchange ourCode q_error q_code k accept s
           = (writeOAuthError 400 ''invalid_request'' ''Invalid or expired state'', s)"
  using assms by (simp add: HandleCallback_def lookup_delete_state_def)

lemma HandleCallback_consumes:
  assumes "q_error = []" "q_code \<noteq> []" "k \<noteq> []"
  shows "states (snd (HandleCallback now exchange ourCode q_error q_code k accept s)) k = None"
  using assms
  by (auto simp: HandleCallback_def lookup_delete_state_def store_code_def Let_def
      split: option.splits sum.splits)

lemma grant_absent:
  assumes "codes s c = None"
  shows "status (fst (handleAuthorizationCodeGrant now c verifier s)) = 400"
  using assms by (simp add: handleAuthorizationCodeGrant_def lookup_delete_code_def writeOAuthError_def)

lemma grant_absent_error:
  assumes "codes s c = None" "c \<noteq> []"
  shows "handleAuthorizationCodeGrant now c verifier s
           = (writeOAuthError 400 ''invalid_grant'' ''Invalid or expired authorization code'', s)"
  using assms by (simp add: handleAuthorizationCodeGrant_def lookup_delete_code_def)

lemma grant_consumes:
  assumes "c \<noteq> []"
  shows "codes (snd (handleAuthorizationCodeGrant now c verifier s)) c = None"
  using assms
  by (auto simp: handleAuthorizationCodeGrant_def lookup_delete_code_def split: option.splits)

text \<open>
  C1. Lookup and delete are one section under the store's lock, so an execution of any
  number of concurrent and sequential invocations is a sequence of sections. For a state
  token absent at the start and stored at most once (the server mints it once), at most
  one callback lookup quoting it finds the entry; likewise for a code and the token
  exchange. An invocation whose lookup does not find the entry answers 400 with
  "Invalid or expired ...", and an invocation that reached its lookup leaves the entry
  absent.
\<close>

theorem single_use:
  "(states s k = None \<and> state_mints k ops \<le> 1 \<longrightarrow>
      successes (CallbackLookup k) (run ops s) \<le> 1) \<and>
   (codes s c = None \<and> code_mints c ops \<le> 1 \<longrightarrow>
      successes (TokenLookup c) (run ops s) \<le> 1) \<and>
   (states s k = None \<longrightarrow>
      status (fst (HandleCallback now exchange ourCode q_error q_code k accept s)) = 400) \<and>
   (states s k = None \<and> q_error = [] \<and> q_code \<noteq> [] \<and> k \<noteq> [] \<longrightarrow>
      HandleCallback now exchange ourCode q_error q_code k accept s
        = (writeOAuthError 400 ''invalid_request'' ''Invalid or expired state'', s)) \<and>
   (q_error = [] \<and> q_code \<noteq> [] \<and> k \<noteq> [] \<longrightarrow>
      states (snd (HandleCallback now exchange ourCode q_error q_code k accept s)) k = None) \<and>
   (codes s c = None \<longrightarrow>
      status (fst (handleAuthorizationCodeGrant now c verifier s)) = 400) \<and>
   (codes s c = None \<and> c \<noteq> [] \<longrightarrow>
      handleAuthorizationCodeGrant now c verifier s
        = (writeOAuthError 400 ''invalid_grant'' ''Invalid or expired authorization code'', s)) \<and>
   (c \<noteq> [] \<longrightarrow> codes (snd (handleAuthorizationCodeGrant now c verifier s)) c = None)"
proof -
  have a: "states s k = None \<and> state_mints k ops \<le> 1 \<longrightarrow>
      successes (CallbackLookup k) (run ops s) \<le> 1"
    using state_successes_bound [of k ops s] by auto
  have b: "codes s c = None \<and> code_mints c ops \<le> 1 \<longrightarrow>
      successes (TokenLookup c) (run ops s) \<le> 1"
    using code_successes_bound [of c ops s] by auto
  show ?thesis
    using a b
    by (simp add: HandleCallback_absent HandleCallback_absent_error HandleCallback_consumes
        grant_absent grant_absent_error grant_consumes)
qed

theorem single_use_witness:
  "states example_server ''st4te'' = None \<and> state_mints ''st4te'' example_ops \<le> 1 \<and>
   successes (CallbackLookup ''st4te'') (run example_ops example_server) = 1 \<and>
   codes example_server ''c0de'' = None \<and> code_mints ''c0de'' example_ops \<le> 1 \<and>
   successes (TokenLookup ''c0de'') (run example_ops example_server) = 1 \<and>
   ''g-code'' \<noteq> [] \<and> ''st4te'' \<noteq> [] \<and> ''c0de'' \<noteq> [] \<and>
   HandleCallback 0 (\<lambda>cfg code. Inr example_token) ''c0de'' [] ''g-code'' ''st4te'' [] example_server
     = (writeOAuthError 400 ''invalid_request'' ''Invalid or expired state'', example_server) \<and>
   handleAuthorizationCodeGrant 0 ''c0de'' ''v'' example_server
     = (writeOAuthError 400 ''invalid_grant'' ''Invalid or expired authorization code'', example_server)"
  using single_use [of example_server "''st4te''" example_ops "''c0de''" 0
      "\<lambda>cfg code. Inr example_token" "''c0de''" "[]" "''g-code''" "[]" "''v''"]
  by (simp add: example_server_def example_ops_def state_mints_def code_mints_def successes_def
      lookup_delete_state_def lookup_delete_code_def store_state_def store_code_def cleanup_def
      example_state_def example_code_def stateTTL_def codeTTL_def)

section \<open>The PKCE check\<close>

subsection \<open>Evaluating SHA-256\<close>

text \<open>Sums and shifts of 32-bit numerals are kept below \<open>2^32\<close> while the simplifier
  evaluates the rounds.\<close>

lemma norm32: "take_bit 32 (x :: u32) = x"
  by (simp add: take_bit_word_eq_self)

lemma rotr_eval: "rotr n x = take_bit 32 (drop_bit n x OR push_bit (32 - n) x)"
  by (simp only: norm32 rotr_def)

lemma next_w_eval: "next_w ws = take_bit 32 (ssig1 (ws ! 1) + ws ! 6 + ssig0 (ws ! 14) + ws ! 15)"
  by (simp only: norm32 next_w_def)

lemma ch_eval: "ch x y z = (x AND y) XOR (take_bit 32 (NOT x) AND z)"
  by (simp only: norm32 ch_def)

lemma round256_eval:
  "round256 (a, b, c, d, e, f, g, h) (k, w) =
     (let t1 = take_bit 32 (h + bsig1 e + ch e f g + k + w);
          t2 = take_bit 32 (bsig0 a + maj a b c)
      in (take_bit 32 (t1 + t2), a, b, c, take_bit 32 (d + t1), e, f, g))"
  by (simp only: norm32 round256_def prod.case)

lemma add_state_eval:
  "add_state (a, b, c, d, e, f, g, h) (a', b', c', d', e', f', g', h') =
     (take_bit 32 (a + a'), take_bit 32 (b + b'), take_bit 32 (c + c'), take_bit 32 (d + d'),
      take_bit 32 (e + e'), take_bit 32 (f + f'), take_bit 32 (g + g'), take_bit 32 (h + h'))"
  by (simp only: norm32 add_state_def prod.case)

lemma schedule_numeral: "schedule (numeral k) ws = schedule (pred_numeral k) (next_w ws # ws)"
  by (simp add: numeral_eq_Suc)

lemma blocks_numeral:
  "blocks (numeral k) hs bs = blocks (pred_numeral k) (compress hs (take 64 bs)) (drop 64 bs)"
  by (simp add: numeral_eq_Suc)

lemma replicate_numeral: "replicate (numeral k) x = x # replicate (pred_numeral k) x"
  by (simp add: numeral_eq_Suc)

lemmas sha_eval = rotr_eval next_w_eval ch_eval round256_eval add_state_eval
  ssig0_def ssig1_def bsig0_def bsig1_def maj_def be32_def compress_def K256_def init256_def
  pad_def be_bytes8_def word_bytes_def state_bytes_def Sum256_def bytes_of_def Let_def
  schedule_numeral blocks_numeral replicate_numeral

text \<open>The digest of the verifier of RFC 7636, appendix B.\<close>

lemma Sum256_rfc7636:
  "Sum256 (bytes_of ''dBjftJeZ4CVP-mB92K27uhbUJU1p1r_wW1gFWFOEjXk'') =
     [19, 211, 30, 150, 26, 26, 216, 236, 47, 22, 177, 12, 76, 152, 46, 8, 118, 168, 120, 173,
      109, 241, 68, 86, 110, 225, 137, 74, 203, 112, 249, 195]"
  by (simp add: sha_eval)

lemma Sum256_wrong_verifier:
  "Sum256 (bytes_of ''wrong-verifier'') =
     [102, 232, 14, 13, 197, 245, 141, 38, 124, 122, 26, 217, 77, 11, 82, 228, 209, 22, 230, 194,
      11, 197, 169, 42, 116, 61, 152, 7, 34, 126, 196, 126]"
  by (simp add: sha_eval)

subsection \<open>What the check accepts\<close>

lemma validatePKCE_iff:
  "validatePKCE verifier challenge method
     \<longleftrightarrow> method = ''S256'' \<and> EncodeToString (Sum256 (bytes_of verifier)) = challenge"
  by (simp add: validatePKCE_def)

lemma validatePKCE_rfc7636:
  "validatePKCE ''dBjftJeZ4CVP-mB92K27uhbUJU1p1r_wW1gFWFOEjXk'' ''E9Melhoa2OwvFrEMTJguCHaoeK1t8URWbuGJSstw-cM'' ''S256''"
  by (simp add: validatePKCE_iff Sum256_rfc7636 encodeURL_def)

lemma validatePKCE_wrong_verifier:
  "\<not> validatePKCE ''wrong-verifier'' ''E9Melhoa2OwvFrEMTJguCHaoeK1t8URWbuGJSstw-cM'' ''S256''"
  by (simp add: validatePKCE_iff Sum256_wrong_verifier encodeURL_def)

lemma validatePKCE_plain: "\<not> validatePKCE verifier challenge ''plain''"
  by (simp add: validatePKCE_iff)

section \<open>A failed exchange consumes the code\<close>

lemma grant_after_lookup:
  assumes "codes s c = Some sc" "c \<noteq> []"
  shows "handleAuthorizationCodeGrant now c v s =
           (if now - ac_CreatedAt sc > codeTTL then
              writeOAuthError 400 ''invalid_grant'' ''Invalid or expired authorization code''
            else if ac_CodeChallenge sc \<noteq> [] \<and> v = [] then
              writeOAuthError 400 ''invalid_grant'' ''Missing code_verifier''
            else if ac_CodeChallenge sc \<noteq> [] \<and>
                    \<not> validatePKCE v (ac_CodeChallenge sc) (ac_CodeMethod sc) then
              writeOAuthError 400 ''invalid_grant'' ''Invalid code_verifier''
            else token_response now (ac_GoogleToken sc),
            s\<lparr>codes := (codes s)(c := None)\<rparr>)"
  using assms by (simp add: handleAuthorizationCodeGrant_def lookup_delete_code_def)

lemma grant_after_delete:
  assumes "c \<noteq> []"
  shows "handleAuthorizationCodeGrant now' c v' (s\<lparr>codes := (codes s)(c := None)\<rparr>) =
           (writeOAuthError 400 ''invalid_grant'' ''Invalid or expired authorization code'',
            s\<lparr>codes := (codes s)(c := None)\<rparr>)"
  using assms by (simp add: handleAuthorizationCodeGrant_def lookup_delete_code_def)

text \<open>
  C10. In the \<open>authorization_code\<close> grant the entry is deleted before the TTL check and
  the PKCE verification. An exchange that finds the code and then fails one of those checks
  (code older than its TTL, missing \<open>code_verifier\<close>, wrong \<open>code_verifier\<close>) answers
  \<open>invalid_grant\<close> and leaves the store without the code, so the store has changed; every
  later exchange quoting the code, at any time and with any verifier, answers
  \<open>invalid_grant\<close> "Invalid or expired authorization code".
\<close>

theorem failed_exchange_consumes_code:
  assumes "codes s c = Some sc" and "c \<noteq> []"
    and "now - ac_CreatedAt sc > codeTTL \<or>
         (ac_CodeChallenge sc \<noteq> [] \<and>
            (v = [] \<or> \<not> validatePKCE v (ac_CodeChallenge sc) (ac_CodeMethod sc)))"
  shows "handleAuthorizationCodeGrant now c v s =
           (writeOAuthError 400 ''invalid_grant''
              (if now - ac_CreatedAt sc > codeTTL then ''Invalid or expired authorization code''
               else if v = [] then ''Missing code_verifier'' else ''Invalid code_verifier''),
            s\<lparr>codes := (codes s)(c := None)\<rparr>) \<and>
         codes (snd (handleAuthorizationCodeGrant now c v s)) c = None \<and>
         codes (snd (handleAuthorizationCodeGrant now c v s)) \<noteq> codes s \<and>
         handleAuthorizationCodeGrant now' c v' (snd (handleAuthorizationCodeGrant now c v s)) =
           (writeOAuthError 400 ''invalid_grant'' ''Invalid or expired authorization code'',
            snd (handleAuthorizationCodeGrant now c v s))"
proof -
  let ?s' = "s\<lparr>codes := (codes s)(c := None)\<rparr>"
  have first: "handleAuthorizationCodeGrant now c v s =
           (writeOAuthError 400 ''invalid_grant''
              (if now - ac_CreatedAt sc > codeTTL then ''Invalid or expired authorization code''
               else if v = [] then ''Missing code_verifier'' else ''Invalid code_verifier''), ?s')"
    using assms(3) by (auto simp: grant_after_lookup [OF assms(1,2)])
  have changed: "codes ?s' \<noteq> codes s"
  proof
    assume "codes ?s' = codes s"
    then have "codes ?s' c = codes s c" by simp
    with assms(1) show False by simp
  qed
  show ?thesis
    unfolding first snd_conv
    using changed grant_after_delete [OF assms(2), of now' v' s] by simp
qed

theorem failed_exchange_consumes_code_witness:
  "codes example_server_with_code ''c0de'' = Some example_code \<and> ''c0de'' \<noteq> [] \<and>
   (ac_CodeChallenge example_code \<noteq> [] \<and>
      \<not> validatePKCE ''wrong-verifier'' (ac_CodeChallenge example_code) (ac_CodeMethod example_code)) \<and>
   fst (handleAuthorizationCodeGrant 1 ''c0de'' ''wrong-verifier'' example_server_with_code)
     = writeOAuthError 400 ''invalid_grant'' ''Invalid code_verifier'' \<and>
   codes (snd (handleAuthorizationCodeGrant 1 ''c0de'' ''wrong-verifier'' example_server_with_code))
     ''c0de'' = None \<and>
   fst (handleAuthorizationCodeGrant 2 ''c0de'' ''dBjftJeZ4CVP-mB92K27uhbUJU1p1r_wW1gFWFOEjXk''
          (snd (handleAuthorizationCodeGrant 1 ''c0de'' ''wrong-verifier'' example_server_with_code)))
     = writeOAuthError 400 ''invalid_grant'' ''Invalid or expired authorization code'' \<and>
   fst (handleAuthorizationCodeGrant 2 ''c0de'' ''dBjftJeZ4CVP-mB92K27uhbUJU1p1r_wW1gFWFOEjXk''
          example_server_with_code)
     = token_response 2 example_token"
proof -
  have code: "codes example_server_with_code ''c0de'' = Some example_code"
    by (simp add: example_server_with_code_def)
  have wrong: "\<not> validatePKCE ''wrong-verifier'' (ac_CodeChallenge example_code) (ac_CodeMethod example_code)"
    using validatePKCE_wrong_verifier by (simp add: example_code_def)
  have right: "validatePKCE ''dBjftJeZ4CVP-mB92K27uhbUJU1p1r_wW1gFWFOEjXk''
      (ac_CodeChallenge example_code) (ac_CodeMethod example_code)"
    using validatePKCE_rfc7636 by (simp add: example_code_def)
  have fresh: "\<not> 2 - ac_CreatedAt example_code > codeTTL" "\<not> 1 - ac_CreatedAt example_code > codeTTL"
    and challenge: "ac_CodeChallenge example_code \<noteq> []" and tok: "ac_GoogleToken example_code = example_token"
    by (simp_all add: example_code_def codeTTL_def)
  have ok: "fst (handleAuthorizationCodeGrant 2 ''c0de'' ''dBjftJeZ4CVP-mB92K27uhbUJU1p1r_wW1gFWFOEjXk''
          example_server_with_code) = token_response 2 example_token"
    using right fresh challenge tok by (simp add: grant_after_lookup [OF code])
  have fails: "1 - ac_CreatedAt example_code > codeTTL \<or>
         (ac_CodeChallenge example_code \<noteq> [] \<and>
            (''wrong-verifier'' = [] \<or>
             \<not> validatePKCE ''wrong-verifier'' (ac_CodeChallenge example_code) (ac_CodeMethod example_code)))"
    using wrong challenge by simp
  note th = failed_exchange_consumes_code [OF code _ fails, of 2
      "''dBjftJeZ4CVP-mB92K27uhbUJU1p1r_wW1gFWFOEjXk''"]
  have first: "fst (handleAuthorizationCodeGrant 1 ''c0de'' ''wrong-verifier'' example_server_with_code)
     = writeOAuthError 400 ''invalid_grant'' ''Invalid code_verifier''"
    using th fresh by simp
  have gone: "codes (snd (handleAuthorizationCodeGrant 1 ''c0de'' ''wrong-verifier'' example_server_with_code))
     ''c0de'' = None"
    using th by blast
  have later: "handleAuthorizationCodeGrant 2 ''c0de'' ''dBjftJeZ4CVP-mB92K27uhbUJU1p1r_wW1gFWFOEjXk''
          (snd (handleAuthorizationCodeGrant 1 ''c0de'' ''wrong-verifier'' example_server_with_code))
     = (writeOAuthError 400 ''invalid_grant'' ''Invalid or expired authorization code'',
        snd (handleAuthorizationCodeGrant 1 ''c0de'' ''wrong-verifier'' example_server_with_code))"
    using th by blast
  show ?thesis
    by (intro conjI) (simp_all only: code wrong challenge first gone later ok fst_conv not_False_eq_True, simp)
qed

section \<open>The credential parser on the three shapes\<close>

lemma key_matches_simps [simp]:
  "key_matches ''web'' ''web''" "\<not> key_matches ''web'' ''installed''"
  "key_matches ''installed'' ''installed''" "\<not> key_matches ''installed'' ''web''"
  "key_matches ''client_id'' ''client_id''" "\<not> key_matches ''client_id'' ''client_secret''"
  "key_matches ''client_secret'' ''client_secret''" "\<not> key_matches ''client_secret'' ''client_id''"
  "\<not> key_matches ''client_id'' ''web''" "\<not> key_matches ''client_id'' ''installed''"
  "\<not> key_matches ''client_secret'' ''web''" "\<not> key_matches ''client_secret'' ''installed''"
  "\<not> key_matches ''web'' ''client_id''" "\<not> key_matches ''web'' ''client_secret''"
  "\<not> key_matches ''installed'' ''client_id''" "\<not> key_matches ''installed'' ''client_secret''"
  by (simp_all add: key_matches_def lower_def)

lemma no_credentials_sel [simp]:
  "cred_ClientID no_credentials = []" "cred_ClientSecret no_credentials = []"
  by (simp_all add: no_credentials_def)

lemma decode_credential_members:
  "decode_credentials (credential_members cid secret) (no_credentials, None) =
     (\<lparr>cred_ClientID = (case cid of None \<Rightarrow> [] | Some x \<Rightarrow> x),
       cred_ClientSecret = (case secret of None \<Rightarrow> [] | Some x \<Rightarrow> x)\<rparr>, None)"
  by (simp add: credential_members_def no_credentials_def split: option.splits)

lemma parseCredentials_web:
  "parseCredentials (Some (web_shape cid secret)) =
     (if cid = None \<or> cid = Some [] then Inl MissingIdOrSecret
      else Inr \<lparr>cred_ClientID = the cid,
                cred_ClientSecret = (case secret of None \<Rightarrow> [] | Some x \<Rightarrow> x)\<rparr>)"
  by (auto simp: parseCredentials_def Unmarshal_wrapper_def Unmarshal_credentials_def web_shape_def
      decode_credential_members split: option.splits)

lemma parseCredentials_installed:
  "parseCredentials (Some (installed_shape cid secret)) =
     (if cid = None \<or> cid = Some [] then Inl MissingIdOrSecret
      else Inr \<lparr>cred_ClientID = the cid,
                cred_ClientSecret = (case secret of None \<Rightarrow> [] | Some x \<Rightarrow> x)\<rparr>)"
  by (auto simp: parseCredentials_def Unmarshal_wrapper_def Unmarshal_credentials_def
      installed_shape_def decode_credential_members split: option.splits)

lemma decode_wrapper_credential_members:
  "decode_wrapper (credential_members cid secret) acc = acc"
  by (cases acc) (simp add: credential_members_def split: option.splits)

lemma parseCredentials_flat:
  "parseCredentials (Some (flat_shape cid secret)) =
     (if cid = None \<or> cid = Some [] \<or> secret = None \<or> secret = Some [] then Inl MissingIdOrSecret
      else Inr \<lparr>cred_ClientID = the cid, cred_ClientSecret = the secret\<rparr>)"
  by (auto simp: parseCredentials_def Unmarshal_wrapper_def Unmarshal_credentials_def flat_shape_def
      decode_credential_members decode_wrapper_credential_members split: option.splits)

text \<open>The first half of C3: with both fields present and non-empty, each shape yields
  exactly the two values.\<close>

lemma parseCredentials_complete:
  assumes "cid \<noteq> []" "secret \<noteq> []"
  shows "parseCredentials (Some (web_shape (Some cid) (Some secret)))
           = Inr \<lparr>cred_ClientID = cid, cred_ClientSecret = secret\<rparr>"
    and "parseCredentials (Some (installed_shape (Some cid) (Some secret)))
           = Inr \<lparr>cred_ClientID = cid, cred_ClientSecret = secret\<rparr>"
    and "parseCredentials (Some (flat_shape (Some cid) (Some secret)))
           = Inr \<lparr>cred_ClientID = cid, cred_ClientSecret = secret\<rparr>"
  using assms by (simp_all add: parseCredentials_web parseCredentials_installed parseCredentials_flat)

text \<open>
  C3. The second half fails on the \<open>web\<close> and \<open>installed\<close> shapes: the parser tests only
  \<open>client_id\<close> there. The payload \<open>{"web": {"client_id": "web-id"}}\<close>, with
  \<open>client_secret\<close> missing, is accepted with an empty secret, and so is the \<open>installed\<close>
  shape with an empty \<open>client_secret\<close>; the flat shape with the same field missing fails, as
  the test "missing fields" expects.
\<close>

theorem parseCredentials_missing_secret:
  "parseCredentials (Some (JObject [(''web'', JObject [(''client_id'', JString ''web-id'')])]))
     = Inr \<lparr>cred_ClientID = ''web-id'', cred_ClientSecret = []\<rparr> \<and>
   parseCredentials (Some (JObject [(''installed'',
       JObject [(''client_id'', JString ''inst-id''), (''client_secret'', JString [])])]))
     = Inr \<lparr>cred_ClientID = ''inst-id'', cred_ClientSecret = []\<rparr> \<and>
   parseCredentials (Some (JObject [(''client_id'', JString ''only-id'')])) = Inl MissingIdOrSecret"
  by (simp add: parseCredentials_def Unmarshal_wrapper_def Unmarshal_credentials_def no_credentials_def)

section \<open>Retries, backoff and pacing of the activity query\<close>

lemma attempts_Nil [simp]: "attempts req [] = []"
  by (simp add: attempts_def)

lemma attempts_Cons [simp]: "attempts req (d # ds) = Query req # Sleep d # attempts req ds"
  by (simp add: attempts_def)

lemma attempts_append [simp]: "attempts req (ds @ ds') = attempts req ds @ attempts req ds'"
  by (simp add: attempts_def)





declare query_pages.simps [simp del]

lemma query_pages_error:
  assumes "query_retry 0 (if pageToken \<noteq> [] then req\<lparr>PageToken := pageToken\<rparr> else req) svc evs
             = Some (Inl err, rest, evs1)"
  shows "query_pages maxResults parse req pageToken pageCount activities svc evs = Some (Inl err, evs1)"
  using assms by (subst query_pages.simps) (simp add: Let_def)

lemma collect_unlimited:
  assumes "maxResults \<le> 0"
  shows "collect maxResults parse as activities = (activities @ map parse as, False)"
  using assms by (induction as arbitrary: activities) (simp_all add: Let_def)

lemma query_retry_returns:
  "query_retry 0 req (returns p # rest) evs = Some (Inr p, rest, evs @ [Query req])"
  by (simp add: returns_def maxRetries_def)

lemma query_pages_fetched:
  assumes "query_retry 0 (if pageToken \<noteq> [] then req\<lparr>PageToken := pageToken\<rparr> else req) svc evs
             = Some (Inr resp, rest, evs1)"
  shows "query_pages maxResults parse req pageToken pageCount activities svc evs =
     (case collect maxResults parse (Activities resp) activities of
        (activities1, stop) \<Rightarrow>
          if stop \<or> NextPageToken resp = [] \<or> (maxResults > 0 \<and> int (length activities1) \<ge> maxResults)
          then Some (Inr activities1, evs1 @ (if Suc pageCount mod 90 = 0 then [Sleep 60] else []))
          else query_pages maxResults parse
                 (if pageToken \<noteq> [] then req\<lparr>PageToken := pageToken\<rparr> else req)
                 (NextPageToken resp) (Suc pageCount) activities1 rest
                 (evs1 @ (if Suc pageCount mod 90 = 0 then [Sleep 60] else [])))"
  using assms
  by (subst query_pages.simps) (auto simp: Let_def maxPagesPerBatch_def split: prod.splits bool.splits)

text \<open>With no limit on the results and no failure, the query fetches every page up to
  the first one without a next-page token, and pauses after every 90th page.\<close>

lemma query_pages_unlimited:
  assumes "maxResults \<le> 0" and "\<forall>p \<in> set pages. NextPageToken p \<noteq> []"
    and "NextPageToken final = []"
  shows "query_pages maxResults parse req pageToken pageCount activities
           (map returns (pages @ [final]) @ rest) evs =
         Some (Inr (activities @ map parse (concat (map Activities (pages @ [final])))),
               evs @ paced_fetches req pageToken pageCount (pages @ [final]))"
  using assms(2)
proof (induction pages arbitrary: req pageToken pageCount activities evs)
  case Nil
  have "query_pages maxResults parse req pageToken pageCount activities (returns final # rest) evs =
      Some (Inr (activities @ map parse (Activities final)),
            (evs @ [Query (if pageToken \<noteq> [] then req\<lparr>PageToken := pageToken\<rparr> else req)]) @
              (if Suc pageCount mod 90 = 0 then [Sleep 60] else []))"
    by (subst query_pages_fetched [OF query_retry_returns])
       (simp add: collect_unlimited [OF assms(1)] assms(3))
  then show ?case by (simp add: Let_def)
next
  case (Cons p pages)
  let ?req1 = "if pageToken \<noteq> [] then req\<lparr>PageToken := pageToken\<rparr> else req"
  let ?evs2 = "(evs @ [Query ?req1]) @ (if Suc pageCount mod 90 = 0 then [Sleep 60] else [])"
  have more: "NextPageToken p \<noteq> []" and rest: "\<forall>p \<in> set pages. NextPageToken p \<noteq> []"
    using Cons.prems by simp_all
  have "query_pages maxResults parse req pageToken pageCount activities
           (returns p # map returns (pages @ [final]) @ rest) evs =
        query_pages maxResults parse ?req1 (NextPageToken p) (Suc pageCount)
           (activities @ map parse (Activities p)) (map returns (pages @ [final]) @ rest) ?evs2"
    using more assms(1)
    by (subst query_pages_fetched [OF query_retry_returns])
       (simp add: collect_unlimited [OF assms(1)])
  also have "\<dots> = Some (Inr ((activities @ map parse (Activities p)) @
                       map parse (concat (map Activities (pages @ [final])))),
                     ?evs2 @ paced_fetches ?req1 (NextPageToken p) (Suc pageCount) (pages @ [final]))"
    by (rule Cons.IH [OF rest])
  finally show ?case by (simp add: Let_def)
qed

subsection \<open>Pacing of every query that returns activities\<close>













subsection \<open>Every query whose upstream ends it returns\<close>







section \<open>The cap of \<open>drive_activity_history\<close>\<close>

lemma collect_bound:
  assumes "1 \<le> maxResults" and "int (length activities) < maxResults"
    and "collect maxResults parse as activities = (activities1, stop)"
  shows "int (length activities1) \<le> maxResults \<and> (\<not> stop \<longrightarrow> int (length activities1) < maxResults)"
  using assms(2,3)
proof (induction as arbitrary: activities)
  case Nil
  then show ?case by simp
next
  case (Cons a as)
  show ?case
  proof (cases "int (length (activities @ [parse a])) \<ge> maxResults")
    case True
    with Cons.prems assms(1) show ?thesis by (auto simp: Let_def)
  next
    case False
    with Cons.prems assms(1) have "collect maxResults parse as (activities @ [parse a]) = (activities1, stop)"
      by (simp add: Let_def)
    with False show ?thesis by (intro Cons.IH) simp_all
  qed
qed

text \<open>With a limit of at least one, the query never returns more than the limit.\<close>

lemma query_pages_bound:
  assumes "1 \<le> maxResults"
  shows "int (length activities) < maxResults \<Longrightarrow>
         query_pages maxResults parse req pageToken pageCount activities svc evs = Some (Inr result, evs') \<Longrightarrow>
         int (length result) \<le> maxResults"
proof (induction svc arbitrary: req pageToken pageCount activities evs rule: length_induct)
  case (1 svc)
  let ?req1 = "if pageToken \<noteq> [] then req\<lparr>PageToken := pageToken\<rparr> else req"
  show ?case
  proof (cases "query_retry 0 ?req1 svc evs")
    case None
    with "1.prems"(2) show ?thesis
      by (subst (asm) query_pages.simps) (simp add: Let_def)
  next
    case (Some r)
    obtain outcome rest evs1 where r: "r = (outcome, rest, evs1)"
      by (cases r)
    show ?thesis
    proof (cases outcome)
      case (Inl err)
      with Some r "1.prems"(2) show ?thesis
        by (simp add: query_pages_error)
    next
      case (Inr resp)
      with Some r have fetched: "query_retry 0 ?req1 svc evs = Some (Inr resp, rest, evs1)"
        by simp
      obtain activities1 stop
        where c: "collect maxResults parse (Activities resp) activities = (activities1, stop)"
        by (cases "collect maxResults parse (Activities resp) activities")
      note b = collect_bound [OF assms "1.prems"(1) c]
      show ?thesis
      proof (cases "stop \<or> NextPageToken resp = [] \<or>
                    (maxResults > 0 \<and> int (length activities1) \<ge> maxResults)")
        case True
        with "1.prems"(2) c have "result = activities1"
          by (simp add: query_pages_fetched [OF fetched])
        with b show ?thesis by simp
      next
        case False
        with "1.prems"(2) c
        have next_run: "query_pages maxResults parse ?req1 (NextPageToken resp) (Suc pageCount)
               activities1 rest (evs1 @ (if Suc pageCount mod 90 = 0 then [Sleep 60] else []))
               = Some (Inr result, evs')"
          by (simp add: query_pages_fetched [OF fetched])
        from False b have lt: "int (length activities1) < maxResults"
          by simp
        from query_retry_shorter [OF fetched] have "length rest < length svc" .
        with "1.IH" lt next_run show ?thesis by blast
      qed
    qed
  qed
qed

lemma QueryDriveActivity_bound:
  assumes "1 \<le> maxResults"
    and "QueryDriveActivity cutoff parse srv daysBack maxResults = Some (Inr result, evs)"
  shows "int (length result) \<le> maxResults"
  using assms query_pages_bound [OF assms(1), of "[]"]
  by (simp add: QueryDriveActivity_def Let_def)

text \<open>The handler keeps its cap whenever the limit it passes on is at least one: for a
  missing or non-numeric \<open>maxResults\<close>, for a number that is not positive, and for a
  number whose conversion to \<open>int64\<close> is at least one.\<close>

lemma activity_history_capped:
  assumes "case args ''maxResults'' of
             Some (JNumber mr) \<Rightarrow> mr > 0 \<longrightarrow> 1 \<le> int64_of_float overflow mr
           | _ \<Rightarrow> True"
    and "activity_history overflow cutoff parse activitySrv args = Some (Inr result, evs)"
  shows "length result \<le> 200"
proof -
  define m0 where "m0 = (case args ''maxResults'' of
      Some (JNumber mr) \<Rightarrow> if mr > 0 then int64_of_float overflow mr else 100 | _ \<Rightarrow> 100)"
  define m where "m = (if m0 > 200 then 200 else m0)"
  have "1 \<le> m0"
    using assms(1) by (auto simp: m0_def split: option.splits json.splits)
  then have m: "1 \<le> m" "m \<le> 200"
    by (simp_all add: m_def)
  define d where "d = (case args ''daysBack'' of
      Some (JNumber db) \<Rightarrow> if db > 0 then int64_of_float overflow db else 7 | _ \<Rightarrow> 7)"
  have unfold: "activity_history overflow cutoff parse activitySrv args =
      (case activitySrv of
         Inl err \<Rightarrow> Some (Inl (''authentication failed: '' @ err), [])
       | Inr srv \<Rightarrow>
           (case QueryDriveActivity cutoff parse srv d m of
              None \<Rightarrow> None
            | Some (Inl err, evs) \<Rightarrow> Some (Inl (''query activity failed: '' @ err), evs)
            | Some (Inr activities, evs) \<Rightarrow> Some (Inr activities, evs)))"
    by (simp only: activity_history_def Let_def m_def m0_def d_def)
  from assms(2) obtain srv where "QueryDriveActivity cutoff parse srv d m = Some (Inr result, evs)"
    unfolding unfold by (auto split: sum.splits option.splits prod.splits)
  from QueryDriveActivity_bound [OF m(1) this] m(2) show ?thesis by simp
qed

lemma int64_of_half: "int64_of_float overflow (1 / 2) = 0"
proof -
  have "\<lfloor>1 / 2 :: rat\<rfloor> = 0"
    by (rule floor_unique) simp_all
  then show ?thesis by (simp add: int64_of_float_def)
qed

lemma example_page_sel [simp]:
  "Activities (example_page next) = replicate 100 ''edit''" "NextPageToken (example_page next) = next"
  by (simp_all add: example_page_def)

lemma example_service_unlimited:
  "query_pages 0 parse req [] 0 [] example_service [] =
     Some (Inr (replicate 300 (parse ''edit'')),
           paced_fetches req [] 0 [example_page ''page-2'', example_page ''page-3'', example_page []])"
proof -
  have tokens: "\<forall>p \<in> set [example_page ''page-2'', example_page ''page-3'']. NextPageToken p \<noteq> []"
    by simp
  have final: "NextPageToken (example_page []) = []"
    by simp
  have acts: "map parse (concat (map Activities
                ([example_page ''page-2'', example_page ''page-3''] @ [example_page []])))
      = replicate 300 (parse ''edit'')"
    by (simp flip: replicate_add)
  have "query_pages 0 parse req [] 0 []
          (map returns ([example_page ''page-2'', example_page ''page-3''] @ [example_page []]) @ []) [] =
        Some (Inr ([] @ map parse (concat (map Activities
                ([example_page ''page-2'', example_page ''page-3''] @ [example_page []])))),
              [] @ paced_fetches req [] 0
                ([example_page ''page-2'', example_page ''page-3''] @ [example_page []]))"
    by (rule query_pages_unlimited [OF _ tokens final]) simp
  then show ?thesis
    unfolding acts by (simp only: example_service_def append.simps append_Nil2)
qed

text \<open>
  C5. The cap fails for a \<open>maxResults\<close> strictly between 0 and 1: the handler accepts it as
  positive, the conversion to \<open>int64\<close> gives 0, 0 is not above 200, and
  \<open>QueryDriveActivity\<close> reads 0 as "no limit". With \<open>{"maxResults": 0.5}\<close> and an upstream
  of three pages of 100 activities the tool returns all 300.
\<close>

theorem activity_history_uncapped:
  "map_option fst (activity_history 0 (\<lambda>d. ''2026-01-01T00:00:00Z'') id (Inr example_service)
      [''maxResults'' \<mapsto> JNumber (1 / 2)]) = Some (Inr (replicate 300 ''edit'')) \<and>
   length (replicate 300 ''edit'') = 300"
  by (simp add: activity_history_def QueryDriveActivity_def int64_of_half example_service_unlimited)

subsection \<open>Retries, backoff and pacing together\<close>





section \<open>Path reconstruction never fails the tool\<close>

lemma walk_parents_empty: "walk_parents get [] path = Some path"
  by (subst walk_parents.simps) simp

lemma walk_parents_fetch_error:
  assumes "get currentID = Inl err"
  shows "walk_parents get currentID path = Some path"
  using assms by (subst walk_parents.simps) simp

lemma walk_parents_root:
  assumes "currentID \<noteq> []" "get currentID = Inr target" "Parents target = []"
  shows "walk_parents get currentID path = Some (pseudo_root target # component target # path)"
  using assms by (subst walk_parents.simps) (simp add: pseudo_root_def component_def)

lemma walk_parents_parent:
  assumes "currentID \<noteq> []" "get currentID = Inr target" "Parents target \<noteq> []"
  shows "walk_parents get currentID path = walk_parents get (hd (Parents target)) (component target # path)"
  using assms by (subst walk_parents.simps) (simp add: component_def)

lemma walk_parents_walk_to:
  assumes "walk_to get fileID fs = Some upper"
  shows "walk_parents get fileID path = walk_parents get upper (rev (map component fs) @ path)"
  using assms
proof (induction fs arbitrary: fileID path)
  case Nil
  then show ?case by simp
next
  case (Cons f fs)
  from Cons.prems have f: "fileID \<noteq> []" "get fileID = Inr f" "Parents f \<noteq> []"
    and rest: "walk_to get (hd (Parents f)) fs = Some upper"
    by (simp_all split: if_splits)
  have "walk_parents get fileID path = walk_parents get (hd (Parents f)) (component f # path)"
    using f by (rule walk_parents_parent)
  also have "\<dots> = walk_parents get upper (rev (map component fs) @ component f # path)"
    by (rule Cons.IH [OF rest])
  finally show ?case by simp
qed

lemma GetFilePath_no_error:
  assumes "GetFilePath get fileID = Some (path, err)"
  shows "err = None"
  using assms by (auto simp: GetFilePath_def split: option.splits)

lemma GetFileInfo_path_only:
  assumes "meta fileID = Inr f" and "GetFilePath get fileID = Some (path, err)"
  shows "GetFileInfo meta get fileID =
           Some (Inr \<lparr>fi_ID = FileId f, fi_Name = Name f, fi_MimeType = MimeType f,
                      fi_Size = Size f, fi_CreatedTime = CreatedTime f,
                      fi_ModifiedTime = ModifiedTime f, fi_WebViewLink = WebViewLink f,
                      fi_Owners = Owners f, fi_Path = path\<rparr>)"
  using assms by (simp add: GetFileInfo_def)

lemma file_info_succeeds:
  assumes "meta fileID = Inr f" and "GetFilePath get fileID = Some (path, err)"
  shows "\<exists>result. file_info (Inr (meta, get)) fileID = Some (Inr (JObject result)) \<and>
           map_of result ''path'' = Some (JArray (map (\<lambda>p. JString (pc_Name p)) path))"
  using assms by (simp add: file_info_def GetFileInfo_path_only)

text \<open>
  C7. Starting at the file, the walk fetches each node, prepends its component (with its
  name) and goes on to \<open>parents[0]\<close>. At a node without parents it prepends the pseudo-root
  \<open>My Drive\<close> (id \<open>root\<close>), or \<open>Shared with me\<close> (id \<open>shared\<close>) when \<open>sharedWithMeTime\<close> is
  set, and returns. When a fetch fails it returns the components gathered so far. The error
  it returns is always nil, so once the metadata fetch of \<open>GetFileInfo\<close> has succeeded, the
  file information carries whatever path was reconstructed and the tool returns a result.
\<close>

theorem path_reconstruction:
  "(walk_to get fileID fs = Some upper \<and> upper \<noteq> [] \<and> get upper = Inr topmost \<and> Parents topmost = [] \<longrightarrow>
      GetFilePath get fileID = Some (pseudo_root topmost # component topmost # rev (map component fs), None)) \<and>
   (walk_to get fileID fs = Some upper \<and> get upper = Inl failure \<longrightarrow>
      GetFilePath get fileID = Some (rev (map component fs), None)) \<and>
   pseudo_root topmost =
     (if SharedWithMeTime topmost \<noteq> []
      then \<lparr>pc_ID = ''shared'', pc_Name = ''Shared with me'', pc_MimeType = ''special''\<rparr>
      else \<lparr>pc_ID = ''root'', pc_Name = ''My Drive'', pc_MimeType = ''special''\<rparr>) \<and>
   pc_Name (component target) = Name target \<and>
   (GetFilePath get fileID = Some (path, err) \<longrightarrow> err = None) \<and>
   (meta fileID = Inr target \<and> GetFilePath get fileID = Some (path, err) \<longrightarrow>
      (\<exists>info. GetFileInfo meta get fileID = Some (Inr info) \<and> fi_Path info = path) \<and>
      (\<exists>result. file_info (Inr (meta, get)) fileID = Some (Inr (JObject result)) \<and>
         map_of result ''path'' = Some (JArray (map (\<lambda>p. JString (pc_Name p)) path))))"
proof (intro conjI impI)
  assume a: "walk_to get fileID fs = Some upper \<and> upper \<noteq> [] \<and> get upper = Inr topmost \<and> Parents topmost = []"
  then have "walk_parents get fileID [] = walk_parents get upper (rev (map component fs) @ [])"
    by (intro walk_parents_walk_to) simp
  also from a have "\<dots> = Some (pseudo_root topmost # component topmost # rev (map component fs) @ [])"
    by (intro walk_parents_root) simp_all
  finally show "GetFilePath get fileID = Some (pseudo_root topmost # component topmost # rev (map component fs), None)"
    by (simp add: GetFilePath_def)
next
  assume a: "walk_to get fileID fs = Some upper \<and> get upper = Inl failure"
  then have "walk_parents get fileID [] = walk_parents get upper (rev (map component fs) @ [])"
    by (intro walk_parents_walk_to) simp
  also from a have "\<dots> = Some (rev (map component fs) @ [])"
    by (intro walk_parents_fetch_error [of _ _ failure]) simp
  finally show "GetFilePath get fileID = Some (rev (map component fs), None)"
    by (simp add: GetFilePath_def)
next
  show "pseudo_root topmost =
     (if SharedWithMeTime topmost \<noteq> []
      then \<lparr>pc_ID = ''shared'', pc_Name = ''Shared with me'', pc_MimeType = ''special''\<rparr>
      else \<lparr>pc_ID = ''root'', pc_Name = ''My Drive'', pc_MimeType = ''special''\<rparr>)"
    by (simp add: pseudo_root_def)
next
  show "pc_Name (component target) = Name target"
    by (simp add: component_def)
next
  assume "GetFilePath get fileID = Some (path, err)"
  then show "err = None" by (rule GetFilePath_no_error)
next
  assume a: "meta fileID = Inr target \<and> GetFilePath get fileID = Some (path, err)"
  then have m: "meta fileID = Inr target" and p: "GetFilePath get fileID = Some (path, err)"
    by simp_all
  show "\<exists>info. GetFileInfo meta get fileID = Some (Inr info) \<and> fi_Path info = path"
    by (simp add: GetFileInfo_path_only
        [where meta = meta and fileID = fileID and f = target and get = get and path = path
           and err = err, OF m p])
  show "\<exists>result. file_info (Inr (meta, get)) fileID = Some (Inr (JObject result)) \<and>
         map_of result ''path'' = Some (JArray (map (\<lambda>p. JString (pc_Name p)) path))"
    by (rule file_info_succeeds
        [where meta = meta and fileID = fileID and f = target and get = get and path = path
           and err = err, OF m p])
qed

lemma example_walk:
  "walk_to example_get ''f1'' [example_report, example_projects] = Some ''d0''"
  "walk_to example_get_failing ''f1'' [example_report, example_projects] = Some ''d0''"
  "example_get ''d0'' = Inr example_work" "Parents example_work = []"
  "example_get_failing ''d0'' = Inl ''backend error''"
  "example_get ''f1'' = Inr example_report"
  by (simp_all add: example_get_def example_get_failing_def example_report_def example_projects_def
      example_work_def example_file_def)

theorem path_reconstruction_witness:
  "walk_to example_get ''f1'' [example_report, example_projects] = Some ''d0'' \<and>
   ''d0'' \<noteq> [] \<and> example_get ''d0'' = Inr example_work \<and> Parents example_work = [] \<and>
   GetFilePath example_get ''f1'' =
     Some ([pseudo_root example_work, component example_work, component example_projects,
            component example_report], None) \<and>
   map pc_Name [pseudo_root example_work, component example_work, component example_projects,
                component example_report] = [''My Drive'', ''Work'', ''Projects'', ''report.pdf''] \<and>
   walk_to example_get_failing ''f1'' [example_report, example_projects] = Some ''d0'' \<and>
   example_get_failing ''d0'' = Inl ''backend error'' \<and>
   GetFilePath example_get_failing ''f1'' =
     Some ([component example_projects, component example_report], None) \<and>
   example_get ''f1'' = Inr example_report \<and>
   (\<exists>info. GetFileInfo example_get example_get_failing ''f1'' = Some (Inr info) \<and>
      fi_Path info = [component example_projects, component example_report])"
proof -
  let ?fs = "[example_report, example_projects]"
  note reached = path_reconstruction [where get = example_get and fileID = "''f1''" and fs = ?fs
      and upper = "''d0''" and topmost = example_work, THEN conjunct1, THEN mp]
  note failed = path_reconstruction [where get = example_get_failing and fileID = "''f1''"
      and fs = ?fs and upper = "''d0''" and failure = "''backend error''",
      THEN conjunct2, THEN conjunct1, THEN mp]
  have full: "GetFilePath example_get ''f1'' =
      Some ([pseudo_root example_work, component example_work, component example_projects,
             component example_report], None)"
    using reached example_walk by simp
  have partial: "GetFilePath example_get_failing ''f1'' =
      Some ([component example_projects, component example_report], None)"
    using failed example_walk by simp
  note info = path_reconstruction [where get = example_get_failing and fileID = "''f1''"
      and meta = example_get and target = example_report
      and path = "[component example_projects, component example_report]" and err = None,
      THEN conjunct2, THEN conjunct2, THEN conjunct2, THEN conjunct2, THEN conjunct2, THEN mp,
      THEN conjunct1]
  have info': "\<exists>info. GetFileInfo example_get example_get_failing ''f1'' = Some (Inr info) \<and>
      fi_Path info = [component example_projects, component example_report]"
    using info example_walk(6) partial by simp
  have names: "map pc_Name [pseudo_root example_work, component example_work, component example_projects,
                component example_report] = [''My Drive'', ''Work'', ''Projects'', ''report.pdf'']"
    by (simp add: pseudo_root_def component_def example_work_def example_projects_def
        example_report_def example_file_def)
  show ?thesis
    using example_walk full partial info' names by simp
qed

section \<open>The order of \<open>drive_folder_list\<close>\<close>

text \<open>The tool returns one entry for each file the upstream returned, in the upstream's
  order.\<close>

lemma folder_list_upstream_order:
  assumes "list ([CHR 0x27] @ folderID @ [CHR 0x27] @ '' in parents and trashed = false'') = Inr fs"
  shows "folder_list (Inr list) folderID = Inr (map item_entry fs)"
  using assms by (simp add: folder_list_def ListFolder_def)

lemma item_entry_shape:
  "item_entry f =
     JObject [(''id'', JString (FileId f)), (''mimeType'', JString (MimeType f)),
              (''modifiedTime'', JString (ModifiedTime f)), (''name'', JString (Name f)),
              (''size'', JNumber (of_int (Size f)))]"
  by (simp add: item_entry_def)

text \<open>
  C8. The tool does not sort. When the upstream lists the text file \<open>a.txt\<close> before the
  folder \<open>b\<close>, the tool returns them in that order, which is not folders first; the order
  the command-line listing sorts into (\<open>runFolderList\<close>) puts the folder first.
\<close>

theorem folder_list_not_sorted:
  "folder_list (Inr example_list) ''root'' = Inr [item_entry example_notes, item_entry example_folder] \<and>
   \<not> IsFolder example_notes \<and> IsFolder example_folder \<and>
   \<not> folders_first [example_notes, example_folder] \<and>
   folders_first [example_folder, example_notes]"
  by (simp add: folder_list_def ListFolder_def example_list_def folder_less_def IsFolder_def
      example_notes_def example_folder_def example_file_def)

section \<open>Moving to the trash is idempotent\<close>

lemma drive_delete_already_trashed:
  assumes "files d fileID = Some f" "Trashed f"
  shows "drive_delete None fileID d = (Inr (delete_result f ''File is already in trash''), d)"
  using assms by (simp add: drive_delete_def Files_Get_def)

lemma drive_delete_moves:
  assumes "files d fileID = Some f" "\<not> Trashed f" "fileID \<notin> set (read_only d)"
  shows "drive_delete None fileID d =
           (Inr (delete_result f ''File moved to trash''),
            d\<lparr>updates := updates d @ [fileID], files := (files d)(fileID \<mapsto> f\<lparr>Trashed := True\<rparr>)\<rparr>)"
  using assms by (simp add: drive_delete_def Files_Get_def Files_Update_trashed_def Let_def)

lemma drive_delete_files:
  "files (snd (drive_delete auth fileID d)) =
     (case auth of
        Some err \<Rightarrow> files d
      | None \<Rightarrow>
          (case files d fileID of
             None \<Rightarrow> files d
           | Some f \<Rightarrow>
               if Trashed f \<or> fileID \<in> set (read_only d) then files d
               else (files d)(fileID \<mapsto> f\<lparr>Trashed := True\<rparr>)))"
  by (simp add: drive_delete_def Files_Get_def Files_Update_trashed_def Let_def
      split: option.splits)

lemma drive_delete_read_only:
  "read_only (snd (drive_delete auth fileID d)) = read_only d"
  by (simp add: drive_delete_def Files_Get_def Files_Update_trashed_def Let_def
      split: option.splits)

lemma drive_delete_twice_files:
  "files (snd (drive_delete auth fileID (snd (drive_delete auth fileID d))))
     = files (snd (drive_delete auth fileID d))"
  by (cases auth; cases "files d fileID")
     (auto simp: drive_delete_files drive_delete_read_only)

text \<open>
  C9. On a file already in the trash the tool issues no update, leaves the store as it
  is and returns the message "File is already in trash" as a result, not an error. On a
  file not in the trash (that the caller may modify) it issues exactly one update, which
  sets \<open>trashed\<close>; a second call then finds the file in the trash and changes nothing.
  Whatever the first call did, a second call leaves the files as the first left them.
\<close>

theorem drive_delete_idempotent:
  "(files d fileID = Some f \<and> Trashed f \<longrightarrow>
      drive_delete None fileID d = (Inr (delete_result f ''File is already in trash''), d)) \<and>
   (files d fileID = Some f \<and> \<not> Trashed f \<and> fileID \<notin> set (read_only d) \<longrightarrow>
      drive_delete None fileID d =
        (Inr (delete_result f ''File moved to trash''),
         d\<lparr>updates := updates d @ [fileID], files := (files d)(fileID \<mapsto> f\<lparr>Trashed := True\<rparr>)\<rparr>) \<and>
      drive_delete None fileID (snd (drive_delete None fileID d)) =
        (Inr (delete_result f ''File is already in trash''), snd (drive_delete None fileID d))) \<and>
   files (snd (drive_delete auth fileID (snd (drive_delete auth fileID d))))
     = files (snd (drive_delete auth fileID d))"
proof (intro conjI impI)
  assume "files d fileID = Some f \<and> Trashed f"
  then show "drive_delete None fileID d = (Inr (delete_result f ''File is already in trash''), d)"
    by (simp add: drive_delete_already_trashed)
next
  assume a: "files d fileID = Some f \<and> \<not> Trashed f \<and> fileID \<notin> set (read_only d)"
  let ?d' = "d\<lparr>updates := updates d @ [fileID], files := (files d)(fileID \<mapsto> f\<lparr>Trashed := True\<rparr>)\<rparr>"
  from a show first: "drive_delete None fileID d = (Inr (delete_result f ''File moved to trash''), ?d')"
    by (simp add: drive_delete_moves)
  have "drive_delete None fileID ?d' =
      (Inr (delete_result (f\<lparr>Trashed := True\<rparr>) ''File is already in trash''), ?d')"
    by (rule drive_delete_already_trashed) simp_all
  then show "drive_delete None fileID (snd (drive_delete None fileID d)) =
        (Inr (delete_result f ''File is already in trash''), snd (drive_delete None fileID d))"
    unfolding first by (simp add: delete_result_def)
next
  show "files (snd (drive_delete auth fileID (snd (drive_delete auth fileID d))))
     = files (snd (drive_delete auth fileID d))"
    by (rule drive_delete_twice_files)
qed

theorem drive_delete_idempotent_witness:
  "files example_drive ''f1'' = Some example_report \<and> \<not> Trashed example_report \<and>
   ''f1'' \<notin> set (read_only example_drive) \<and>
   updates (snd (drive_delete None ''f1'' example_drive)) = [''f1''] \<and>
   map_option Trashed (files (snd (drive_delete None ''f1'' example_drive)) ''f1'') = Some True \<and>
   drive_delete None ''f1'' (snd (drive_delete None ''f1'' example_drive)) =
     (Inr (delete_result example_report ''File is already in trash''),
      snd (drive_delete None ''f1'' example_drive)) \<and>
   files (snd (drive_delete None ''f1'' example_drive)) ''f1'' = Some (example_report\<lparr>Trashed := True\<rparr>) \<and>
   Trashed (example_report\<lparr>Trashed := True\<rparr>) \<and>
   drive_delete None ''f1'' (snd (drive_delete None ''f1'' example_drive)) =
     (Inr (delete_result (example_report\<lparr>Trashed := True\<rparr>) ''File is already in trash''),
      snd (drive_delete None ''f1'' example_drive))"
proof -
  have pre: "files example_drive ''f1'' = Some example_report \<and> \<not> Trashed example_report \<and>
      ''f1'' \<notin> set (read_only example_drive)"
    by (simp add: example_drive_def example_report_def example_file_def)
  note moved = drive_delete_idempotent [where d = example_drive and fileID = "''f1''"
      and f = example_report, THEN conjunct2, THEN conjunct1, THEN mp, OF pre]
  let ?d' = "snd (drive_delete None ''f1'' example_drive)"
  have d': "?d' = example_drive\<lparr>updates := updates example_drive @ [''f1''],
       files := (files example_drive)(''f1'' \<mapsto> example_report\<lparr>Trashed := True\<rparr>)\<rparr>"
    using moved by simp
  have stored: "files ?d' ''f1'' = Some (example_report\<lparr>Trashed := True\<rparr>)"
    and ups: "updates ?d' = [''f1'']"
    unfolding d' by (simp_all add: example_drive_def)
  have trashed: "files ?d' ''f1'' = Some (example_report\<lparr>Trashed := True\<rparr>) \<and>
      Trashed (example_report\<lparr>Trashed := True\<rparr>)"
    using stored by simp
  note again = drive_delete_idempotent [where d = ?d' and fileID = "''f1''"
      and f = "example_report\<lparr>Trashed := True\<rparr>", THEN conjunct1, THEN mp, OF trashed]
  show ?thesis
    using pre moved again stored ups by simp
qed

end
